(* ===== verification/Prelude.thy ===== *)
theory Prelude
  imports Main "HOL-Library.Sublist" "HOL-Library.Multiset" "HOL-Library.List_Lexorder"
    "HOL-Library.Char_ord"
begin

text \<open>
  Shared vocabulary of the BookMarkManager development: the names of the model's
  basic types, the fact collections the component theories fill, and generic
  lemmas about lists indexed by a key function.  The view model keeps its
  bookmarks in a JavaScript array (\<open>Bookmark[]\<close>), not in a dictionary, so the
  key-indexed lemmas below relate such a list to the map from ids to records
  that the specification talks about.
\<close>

section \<open>Names of the model's types\<close>

text \<open>
  Every identifier of the source is a TypeScript \<open>string\<close>: the bookmark ids and
  timestamps assigned by the database, the Supabase user id, the form's fields.
\<close>

type_synonym bookmark_key = string
type_synonym user_key = string

section \<open>Fact collections\<close>

named_theorems handler_simps
  "characteristic equations of the component handlers, unfolded by the component proofs"
named_theorems keyed_simps
  "rewrite rules for lists indexed by a key function"

section \<open>Lists indexed by a key\<close>

text \<open>
  \<open>index_by f xs\<close> is the dictionary a list denotes when \<open>f\<close> picks the key of each
  element: the first element with a given key wins, as a lookup by
  \<open>Array.prototype.find\<close> would.
\<close>

definition index_by :: "('a \<Rightarrow> 'k) \<Rightarrow> 'a list \<Rightarrow> 'k \<rightharpoonup> 'a" where
  "index_by f xs = map_of (map (\<lambda>x. (f x, x)) xs)"

definition drop_key :: "('a \<Rightarrow> 'k) \<Rightarrow> 'k \<Rightarrow> 'a list \<Rightarrow> 'a list" where
  "drop_key f k xs = filter (\<lambda>x. f x \<noteq> k) xs"

text \<open>Taking one element out of a list by position (a settled promise leaves the queue).\<close>

definition remove_at :: "nat \<Rightarrow> 'a list \<Rightarrow> 'a list" where
  "remove_at i xs = take i xs @ drop (Suc i) xs"

lemma index_by_Nil [simp, keyed_simps]: "index_by f [] = Map.empty"
  by (simp add: index_by_def)

lemma index_by_Cons [simp, keyed_simps]: "index_by f (x # xs) = (index_by f xs)(f x \<mapsto> x)"
  by (simp add: index_by_def)

lemma dom_index_by [simp, keyed_simps]: "dom (index_by f xs) = f ` set xs"
  by (simp add: index_by_def dom_map_of_conv_image_fst image_image)

lemma index_by_SomeD: "index_by f xs k = Some x \<Longrightarrow> x \<in> set xs \<and> f x = k"
  by (induction xs) (auto split: if_splits)

lemma index_by_drop_key [simp, keyed_simps]:
  "index_by f (drop_key f k xs) = (index_by f xs)(k := None)"
  by (induction xs) (auto simp: drop_key_def fun_eq_iff)

lemma set_drop_key [simp, keyed_simps]: "set (drop_key f k xs) = {x \<in> set xs. f x \<noteq> k}"
  by (auto simp: drop_key_def)

lemma drop_key_absent [keyed_simps]: "k \<notin> f ` set xs \<Longrightarrow> drop_key f k xs = xs"
  by (induction xs) (auto simp: drop_key_def)

lemma drop_key_idem [simp, keyed_simps]: "drop_key f k (drop_key f k xs) = drop_key f k xs"
  by (simp add: drop_key_def)

lemma drop_key_commute [keyed_simps]:
  "drop_key f k (drop_key f j xs) = drop_key f j (drop_key f k xs)"
  by (simp add: drop_key_def filter_filter conj_commute)

lemma key_not_in_drop_key [simp, keyed_simps]: "k \<notin> f ` set (drop_key f k xs)"
  by auto

lemma distinct_drop_key [keyed_simps]:
  "distinct (map f xs) \<Longrightarrow> distinct (map f (drop_key f k xs))"
  by (simp add: drop_key_def distinct_map_filter)

lemma drop_key_subseq: "subseq (drop_key f k xs) xs"
  by (simp add: drop_key_def)

lemma mset_drop_key_le: "mset (drop_key f k xs) \<subseteq># mset xs"
  by (simp add: drop_key_def multiset_filter_subset)

lemma length_remove_at [simp]: "i < length xs \<Longrightarrow> length (remove_at i xs) = length xs - 1"
  by (simp add: remove_at_def)

lemma mset_remove_at: "i < length xs \<Longrightarrow> mset (remove_at i xs) = mset xs - {#xs ! i#}"
proof -
  assume i: "i < length xs"
  then have "xs = take i xs @ xs ! i # drop (Suc i) xs"
    by (simp add: id_take_nth_drop)
  then have "mset xs = mset (remove_at i xs) + {#xs ! i#}"
    by (metis add_mset_add_single mset.simps(2) mset_append remove_at_def union_mset_add_mset_right)
  then show ?thesis by simp
qed

lemma length_filter_remove_at:
  assumes i: "i < length xs"
  shows "length (filter P (remove_at i xs)) = length (filter P xs) - (if P (xs ! i) then 1 else 0)"
proof -
  from i have "xs = take i xs @ xs ! i # drop (Suc i) xs" by (simp add: id_take_nth_drop)
  then have "length (filter P xs) = length (filter P (take i xs @ xs ! i # drop (Suc i) xs))"
    by simp
  also have "\<dots> = length (filter P (remove_at i xs)) + (if P (xs ! i) then 1 else 0)"
    by (simp add: remove_at_def)
  finally show ?thesis by simp
qed

lemma set_remove_at_subset: "set (remove_at i xs) \<subseteq> set xs"
  by (auto simp: remove_at_def dest: in_set_takeD in_set_dropD)

text \<open>
  A list of distinct keys is determined, up to order, by the dictionary it denotes.
\<close>

lemma distinct_keys_set_eq:
  assumes "distinct (map f xs)" and "distinct (map f ys)"
    and "index_by f xs = index_by f ys"
  shows "set xs = set ys"
proof -
  have mem: "x \<in> set zs \<longleftrightarrow> index_by f zs (f x) = Some x" if "distinct (map f zs)" for x zs
    using that by (induction zs) (auto simp: image_iff)
  show ?thesis
    using mem [OF assms(1)] mem [OF assms(2)] assms(3) by auto
qed

end
