(* ===== verification/Text.thy ===== *)
theory Text
  imports Prelude
begin

text \<open>
  The two JavaScript string methods the search box of
  \<open>src/app/dashboard/bookmark-manager.tsx\<close> (\<open>filteredBookmarks\<close>, lines 90--94) calls:
  \<open>String.prototype.toLowerCase\<close> and \<open>String.prototype.includes\<close>.  A HOL
  \<open>char\<close> has 256 values; the model reads them as the UTF-16 code units
  U+0000--U+00FF (Latin-1).  On that range the Unicode lower-case mapping that
  \<open>toLowerCase\<close> applies sends exactly the upper-case letters A--Z and
  U+00C0--U+00DE other than the sign U+00D7 to the code 32 above, and leaves
  every other character alone (\<open>latin1_upper\<close>, \<open>js_lower_char\<close>).  Code units
  above U+00FF are not representable.  \<open>js_includes\<close> is the naive
  left-to-right substring search; it is proved equal to the library's
  \<open>sublist\<close> (\<open>\<exists>p q. s = p @ t @ q\<close>), the reference definition of
  "contains as a substring".
\<close>

section \<open>Lower case\<close>

definition latin1_upper :: "nat \<Rightarrow> bool" where
  "latin1_upper n = ((65 \<le> n \<and> n \<le> 90) \<or> (192 \<le> n \<and> n \<le> 222 \<and> n \<noteq> 215))"

definition js_lower_char :: "char \<Rightarrow> char" where
  "js_lower_char c =
     (let n = (of_char c :: nat) in if latin1_upper n then char_of (n + 32) else c)"

definition js_to_lower :: "string \<Rightarrow> string" where
  "js_to_lower s = map js_lower_char s"

section \<open>Substring search\<close>

fun starts_with :: "string \<Rightarrow> string \<Rightarrow> bool" where
  "starts_with s [] = True"
| "starts_with [] (c # t) = False"
| "starts_with (d # s) (c # t) = (d = c \<and> starts_with s t)"

fun js_includes :: "string \<Rightarrow> string \<Rightarrow> bool" where
  "js_includes [] t = (t = [])"
| "js_includes (c # s) t = (starts_with (c # s) t \<or> js_includes s t)"

section \<open>Lemmas\<close>

lemma starts_with_prefix [simp]: "starts_with s t \<longleftrightarrow> prefix t s"
  by (induction s t rule: starts_with.induct) auto

lemma js_includes_sublist: "js_includes s t \<longleftrightarrow> sublist t s"
  by (induction s) (auto simp: sublist_Cons_right)

lemma js_includes_iff: "js_includes s t \<longleftrightarrow> (\<exists>p q. s = p @ t @ q)"
  by (simp add: js_includes_sublist sublist_def)

lemma js_includes_Nil [simp]: "js_includes s []"
  by (simp add: js_includes_sublist)

lemma js_includes_refl [simp]: "js_includes s s"
  by (simp add: js_includes_sublist)

lemma js_includes_append_left: "js_includes s t \<Longrightarrow> js_includes (p @ s) t"
  by (metis append_assoc js_includes_iff)

lemma of_char_lower_range:
  "latin1_upper (of_char c) \<Longrightarrow> of_char (char_of (of_char c + (32::nat)) :: char) = (of_char c + 32 :: nat)"
proof -
  assume "latin1_upper (of_char c)"
  then have "of_char c + 32 < (256::nat)" by (auto simp: latin1_upper_def)
  then show ?thesis by (simp add: of_char_of)
qed

lemma latin1_upper_shift: "latin1_upper n \<Longrightarrow> \<not> latin1_upper (n + 32)"
  by (auto simp: latin1_upper_def)

lemma js_lower_char_not_upper: "\<not> latin1_upper (of_char (js_lower_char c))"
proof (cases "latin1_upper (of_char c)")
  case True
  then have "of_char (js_lower_char c) = (of_char c + 32 :: nat)"
    by (simp add: js_lower_char_def of_char_lower_range del: of_char_of)
  with True show ?thesis by (simp add: latin1_upper_shift)
qed (simp add: js_lower_char_def)

lemma js_lower_char_idem [simp]: "js_lower_char (js_lower_char c) = js_lower_char c"
  using js_lower_char_not_upper [of c] by (simp add: js_lower_char_def [of "js_lower_char c"])

lemma js_to_lower_idem [simp]: "js_to_lower (js_to_lower s) = js_to_lower s"
  by (simp add: js_to_lower_def)

lemma length_js_to_lower [simp]: "length (js_to_lower s) = length s"
  by (simp add: js_to_lower_def)

lemma js_to_lower_append [simp]: "js_to_lower (s @ t) = js_to_lower s @ js_to_lower t"
  by (simp add: js_to_lower_def)

lemma js_to_lower_Nil [simp]: "js_to_lower [] = []"
  by (simp add: js_to_lower_def)

end
