(* ===== verification/Bookmark.thy ===== *)
theory Bookmark
  imports Text
begin

text \<open>
  The data of \<open>src/app/dashboard/bookmark-manager.tsx\<close>: the \<open>Bookmark\<close> row type
  (lines 7--13), the realtime callback that merges a \<open>postgres_changes\<close> payload
  into the \<open>bookmarks\<close> array (lines 42--48), and the derived
  \<open>filteredBookmarks\<close> (lines 90--94).  The array is kept as a list, in the order
  the code keeps it; the specification's view of it, a dictionary from ids to rows,
  is the abstraction \<open>bookmark_index\<close>.  The specification's merge protocol is
  stated as \<open>merge_spec\<close> and the handler is proved to refine it on the events
  of the signed-in user, and to diverge from it where the code trusts the
  transport (duplicates, foreign owners).
\<close>

section \<open>Rows and change events\<close>

text \<open>The TypeScript field \<open>id\<close> is \<open>bm_id\<close> here: \<open>id\<close> is the identity function of HOL.\<close>

record bookmark =
  bm_id :: bookmark_key
  created_at :: string
  user_id :: user_key
  url :: string
  title :: string

text \<open>
  A Supabase \<open>postgres_changes\<close> payload: \<open>eventType\<close> with the new row for an
  insert or an update, and for a delete the old row, of which the callback reads
  only \<open>payload.old.id\<close>.
\<close>

datatype change_event =
    INSERT bookmark
  | UPDATE bookmark
  | DELETE bookmark_key

section \<open>The realtime callback\<close>

text \<open>
  \<open>setBookmarks (prev => ...)\<close> with the callback's \<open>if\<close>/\<open>else if\<close>: an insert is
  prepended, a delete filters the old id out, any other event type is ignored.
\<close>

fun on_postgres_change :: "bookmark list \<Rightarrow> change_event \<Rightarrow> bookmark list" where
  "on_postgres_change prev (INSERT new) = new # prev"
| "on_postgres_change prev (DELETE old_id) = filter (\<lambda>b. bm_id b \<noteq> old_id) prev"
| "on_postgres_change prev (UPDATE new) = prev"

text \<open>React applies queued functional updates in the order they were queued.\<close>

definition apply_changes :: "bookmark list \<Rightarrow> change_event list \<Rightarrow> bookmark list" where
  "apply_changes bs evs = foldl on_postgres_change bs evs"

section \<open>The search filter\<close>

definition matches_filter :: "string \<Rightarrow> bookmark \<Rightarrow> bool" where
  "matches_filter f b =
     (js_includes (js_to_lower (title b)) (js_to_lower f)
      \<or> js_includes (js_to_lower (url b)) (js_to_lower f))"

definition filtered_bookmarks :: "bookmark list \<Rightarrow> string \<Rightarrow> bookmark list" where
  "filtered_bookmarks bookmarks f = filter (matches_filter f) bookmarks"

section \<open>The specification's view\<close>

text \<open>
  The dictionary a bookmark array denotes (the first row with an id wins, as the
  rendering's \<open>key={bookmark.id}\<close> would find it), the well-formedness the
  specification asks of the collection (unique ids, all rows owned by the user),
  and the display order of the initial query (\<open>created_at\<close> descending;
  Postgres' ISO-8601 timestamps of one time zone compare as strings).
\<close>

definition bookmark_index :: "bookmark list \<Rightarrow> bookmark_key \<rightharpoonup> bookmark" where
  "bookmark_index bs = index_by bm_id bs"

definition owned_by :: "user_key \<Rightarrow> bookmark list \<Rightarrow> bool" where
  "owned_by uid bs = list_all (\<lambda>b. user_id b = uid) bs"

definition wf_bookmarks :: "user_key \<Rightarrow> bookmark list \<Rightarrow> bool" where
  "wf_bookmarks uid bs = (distinct (map bm_id bs) \<and> owned_by uid bs)"

definition newest_first :: "bookmark list \<Rightarrow> bool" where
  "newest_first bs = sorted_wrt (\<lambda>a b. created_at b \<le> created_at a) bs"

text \<open>
  The merge protocol of the specification (section 4.1, "Event Merge Protocol"):
  events tagged with their owner; a foreign event is ignored, a creation is an
  upsert by id, a deletion removes the id.  \<open>delivered\<close> is what the transport
  hands the callback for such an event.
\<close>

datatype sync_event = Created bookmark | Deleted user_key bookmark_key

fun merge_spec :: "user_key \<Rightarrow> (bookmark_key \<rightharpoonup> bookmark) \<Rightarrow> sync_event \<Rightarrow> (bookmark_key \<rightharpoonup> bookmark)" where
  "merge_spec uid m (Created b) = (if user_id b = uid then m(bm_id b \<mapsto> b) else m)"
| "merge_spec uid m (Deleted owner k) = (if owner = uid then m(k := None) else m)"

fun delivered :: "sync_event \<Rightarrow> change_event" where
  "delivered (Created b) = INSERT b"
| "delivered (Deleted owner k) = DELETE k"

fun event_owner :: "sync_event \<Rightarrow> user_key" where
  "event_owner (Created b) = user_id b"
| "event_owner (Deleted owner k) = owner"

fun event_key :: "change_event \<Rightarrow> bookmark_key option" where
  "event_key (INSERT b) = Some (bm_id b)"
| "event_key (DELETE k) = Some k"
| "event_key (UPDATE b) = None"

section \<open>Sample rows\<close>

text \<open>The rows of the specification's scenarios (section 8), and a row of another user.\<close>

definition google :: bookmark where
  "google = \<lparr>bm_id = ''1'', created_at = ''2024-01-01T09:00:00'', user_id = ''u1'',
             url = ''https://google.com'', title = ''Google''\<rparr>"

definition bing :: bookmark where
  "bing = \<lparr>bm_id = ''2'', created_at = ''2024-01-02T09:00:00'', user_id = ''u1'',
           url = ''https://bing.com'', title = ''Bing''\<rparr>"

definition intruder :: bookmark where
  "intruder = \<lparr>bm_id = ''3'', created_at = ''2024-01-03T09:00:00'', user_id = ''u2'',
               url = ''https://example.org'', title = ''Other''\<rparr>"

lemmas sample_rows = google_def bing_def intruder_def

section \<open>Lemmas of the callback\<close>

lemma delete_is_drop_key [handler_simps]:
  "on_postgres_change bs (DELETE k) = drop_key bm_id k bs"
  by (simp add: drop_key_def)

lemma apply_changes_Nil [simp]: "apply_changes bs [] = bs"
  by (simp add: apply_changes_def)

lemma apply_changes_Cons [simp]:
  "apply_changes bs (e # es) = apply_changes (on_postgres_change bs e) es"
  by (simp add: apply_changes_def)

lemma apply_changes_append:
  "apply_changes bs (es @ fs) = apply_changes (apply_changes bs es) fs"
  by (simp add: apply_changes_def)

lemma bookmark_index_Cons [simp, handler_simps]:
  "bookmark_index (b # bs) = (bookmark_index bs)(bm_id b \<mapsto> b)"
  by (simp add: bookmark_index_def)

lemma bookmark_index_filter_key [simp, handler_simps]:
  "bookmark_index (filter (\<lambda>b. bm_id b \<noteq> k) bs) = (bookmark_index bs)(k := None)"
  by (simp add: bookmark_index_def index_by_drop_key [unfolded drop_key_def])

lemma delivered_merge:
  "event_owner e = uid \<Longrightarrow>
   bookmark_index (on_postgres_change bs (delivered e)) = merge_spec uid (bookmark_index bs) e"
  by (cases e) simp_all

lemma owned_by_Cons [simp]: "owned_by uid (b # bs) \<longleftrightarrow> user_id b = uid \<and> owned_by uid bs"
  by (simp add: owned_by_def)

lemma owned_by_filter: "owned_by uid bs \<Longrightarrow> owned_by uid (filter P bs)"
  by (simp add: owned_by_def list_all_iff)

lemma set_on_change_subset:
  "set (on_postgres_change bs e) \<subseteq> set bs \<union> {b. e = INSERT b}"
  by (cases e) auto

section \<open>Properties of the callback\<close>

text \<open>
  C1. On the events of the signed-in user, the callback refines the specification's
  merge protocol: the dictionary denoted by the new array is the specification's
  merge of the dictionary denoted by the old one.
\<close>

theorem on_change_refines_merge_spec:
  "event_owner e = uid \<Longrightarrow>
   bookmark_index (on_postgres_change bs (delivered e)) = merge_spec uid (bookmark_index bs) e"
  by (rule delivered_merge)

theorem on_change_refines_merge_spec_witness:
  "event_owner (Created bing) = ''u1'' \<and>
   bookmark_index (on_postgres_change [google] (delivered (Created bing)))
     = merge_spec ''u1'' (bookmark_index [google]) (Created bing)"
proof -
  have h: "event_owner (Created bing) = ''u1''" by (simp add: bing_def)
  show ?thesis using h on_change_refines_merge_spec [OF h, of "[google]"] by simp
qed

text \<open>
  The insert branch does not deduplicate: an \<open>INSERT\<close> delivered twice leaves
  two rows with the same id, against the specification's idempotent upsert
  (C2 in \<open>Redelivery\<close> shows it in a running system).
\<close>

theorem duplicate_insert_breaks_uniqueness:
  "\<not> distinct (map bm_id (apply_changes bs [INSERT b, INSERT b]))"
  by simp

text \<open>
  C3. The callback keeps the collection well formed (unique ids, every row the
  user's) provided an inserted row is the user's and its id is new.
\<close>

theorem on_change_preserves_wf:
  assumes "wf_bookmarks uid bs"
    and "\<forall>b. e = INSERT b \<longrightarrow> user_id b = uid \<and> bm_id b \<notin> bm_id ` set bs"
  shows "wf_bookmarks uid (on_postgres_change bs e)"
  using assms
  by (cases e) (auto simp: wf_bookmarks_def distinct_map_filter owned_by_filter)

theorem on_change_preserves_wf_witness:
  "wf_bookmarks ''u1'' (on_postgres_change [google] (INSERT bing))"
proof -
  have h1: "wf_bookmarks ''u1'' [google]" by (simp add: wf_bookmarks_def owned_by_def google_def)
  have h2: "\<forall>b. INSERT bing = INSERT b \<longrightarrow> user_id b = ''u1'' \<and> bm_id b \<notin> bm_id ` set [google]"
    by (simp add: sample_rows)
  show ?thesis by (rule on_change_preserves_wf [OF h1 h2])
qed

text \<open>
  C4. A delete removes every row with its id, applying it again changes
  nothing, and it leaves the array as it is exactly when no row has the id.
\<close>

theorem delete_idempotent:
  "k \<notin> bm_id ` set (on_postgres_change bs (DELETE k))
   \<and> on_postgres_change (on_postgres_change bs (DELETE k)) (DELETE k) = on_postgres_change bs (DELETE k)
   \<and> (on_postgres_change bs (DELETE k) = bs \<longleftrightarrow> k \<notin> bm_id ` set bs)"
  by (auto simp: filter_id_conv)

text \<open>
  C6. Two events on different ids commute: either order gives the same dictionary
  and the same rows (as a multiset; two inserts end in either order in the array).
\<close>

theorem disjoint_events_commute:
  assumes "event_key e1 \<noteq> event_key e2"
  shows "bookmark_index (apply_changes bs [e1, e2]) = bookmark_index (apply_changes bs [e2, e1])
     \<and> mset (apply_changes bs [e1, e2]) = mset (apply_changes bs [e2, e1])"
  using assms
  by (cases e1; cases e2) (auto simp: fun_upd_twist filter_filter conj_commute)

theorem disjoint_events_commute_witness:
  "bookmark_index (apply_changes [google] [INSERT bing, DELETE ''1''])
     = bookmark_index (apply_changes [google] [DELETE ''1'', INSERT bing])
   \<and> mset (apply_changes [google] [INSERT bing, DELETE ''1''])
     = mset (apply_changes [google] [DELETE ''1'', INSERT bing])"
proof -
  have h: "event_key (INSERT bing) \<noteq> event_key (DELETE ''1'')" by (simp add: bing_def)
  show ?thesis by (rule disjoint_events_commute [OF h])
qed

text \<open>
  C7. The callback does not check the owner of an inserted row: a row of another
  user is kept, so the collection is no longer the user's alone.  The
  specification asks that a foreign event be ignored.
\<close>

theorem foreign_insert_kept:
  "user_id b \<noteq> uid \<Longrightarrow>
   b \<in> set (on_postgres_change bs (INSERT b)) \<and> \<not> owned_by uid (on_postgres_change bs (INSERT b))"
  by simp

theorem foreign_insert_kept_witness:
  "intruder \<in> set (on_postgres_change [google] (INSERT intruder))
   \<and> \<not> owned_by ''u1'' (on_postgres_change [google] (INSERT intruder))"
proof -
  have h: "user_id intruder \<noteq> ''u1''" by (simp add: intruder_def)
  show ?thesis by (rule foreign_insert_kept [OF h])
qed

text \<open>
  C8. A row is shown by the search exactly when it is in the array and the
  lower-cased search term is a substring of its lower-cased title or url.
\<close>

theorem filtered_bookmarks_iff:
  "b \<in> set (filtered_bookmarks bs f) \<longleftrightarrow>
     b \<in> set bs \<and> (sublist (js_to_lower f) (js_to_lower (title b))
                 \<or> sublist (js_to_lower f) (js_to_lower (url b)))"
  by (auto simp: filtered_bookmarks_def matches_filter_def js_includes_sublist)

text \<open>
  C9. The callback keeps the array newest first when each inserted row is at
  least as new as the rows it is put in front of; a delete always keeps the order.
\<close>

theorem on_change_keeps_newest_first:
  assumes "newest_first bs"
    and "\<forall>b. e = INSERT b \<longrightarrow> (\<forall>x\<in>set bs. created_at x \<le> created_at b)"
  shows "newest_first (on_postgres_change bs e)"
  using assms by (cases e) (auto simp: newest_first_def sorted_wrt_filter)

theorem on_change_keeps_newest_first_witness:
  "newest_first (on_postgres_change [google] (INSERT bing))"
proof -
  have h1: "newest_first [google]" by (simp add: newest_first_def)
  have c: "created_at google \<le> created_at bing" unfolding google_def bing_def by code_simp
  have h2: "\<forall>b. INSERT bing = INSERT b \<longrightarrow> (\<forall>x\<in>set [google]. created_at x \<le> created_at b)"
    using c by simp
  show ?thesis by (rule on_change_keeps_newest_first [OF h1 h2])
qed

text \<open>
  The specification's snapshot-then-stream scenario: from the snapshot
  [Google], the events \<open>INSERT Bing\<close> and \<open>DELETE 1\<close> leave exactly [Bing].
\<close>

theorem snapshot_then_stream:
  "apply_changes [google] [INSERT bing, DELETE ''1''] = [bing]
   \<and> bookmark_index (apply_changes [google] [INSERT bing, DELETE ''1'']) = [''2'' \<mapsto> bing]"
  by (simp add: google_def bing_def bookmark_index_def)

text \<open>
  The search is case-insensitive in its term: two terms with the same
  lower case show the same rows (typing "GO" or "go" makes no difference).
\<close>

theorem search_case_insensitive:
  "js_to_lower f = js_to_lower g \<Longrightarrow> filtered_bookmarks bs f = filtered_bookmarks bs g"
proof -
  assume "js_to_lower f = js_to_lower g"
  then have "matches_filter f = matches_filter g" by (simp add: matches_filter_def fun_eq_iff)
  then show ?thesis by (simp add: filtered_bookmarks_def)
qed

theorem search_case_insensitive_witness:
  "filtered_bookmarks [bing, google] ''GO'' = filtered_bookmarks [bing, google] ''go''"
proof -
  have h: "js_to_lower ''GO'' = js_to_lower ''go''" by code_simp
  show ?thesis by (rule search_case_insensitive [OF h])
qed

end
