(* ===== verification/Store.thy ===== *)
theory Store
  imports Bookmark
begin

text \<open>
  The Supabase side of the application, which the repository only calls: the
  \<open>bookmarks\<close> table, its row-level security, and the realtime publication of
  \<open>postgres_changes\<close> to a channel.  None of it is code of the repository
  (\<open>src/utils/supabase\<close> is not in it and the database policies are not either),
  so these definitions follow the specification's interface section (section 6):
  the store assigns \<open>id\<close> and \<open>created_at\<close>, every read and delete is scoped to
  the caller by row-level security, and the transport delivers what the
  channel's filter accepts.  The one piece of code here is the filter itself,
  \<open>user_id=eq.${userId}\<close> (\<open>bookmark-manager.tsx\<close>, lines 36--41).

  The table is kept newest first: the store gives each new row an id no row has
  and a timestamp later than every row's, so inserting at the head keeps the
  order (\<open>fresh_row\<close>).  This is an assumption on the environment.
  Postgres's \<open>now()\<close> is the start time of the transaction, so two concurrent
  inserts can commit in the other order than their timestamps, or with equal
  timestamps.  The model's store never makes such a choice.
\<close>

section \<open>The table\<close>

definition rls_select :: "user_key \<Rightarrow> bookmark list \<Rightarrow> bookmark list" where
  "rls_select uid table = filter (\<lambda>b. user_id b = uid) table"

definition fresh_row :: "bookmark list \<Rightarrow> bookmark \<Rightarrow> bool" where
  "fresh_row table row =
     list_all (\<lambda>b. bm_id b \<noteq> bm_id row \<and> created_at b < created_at row) table"

definition db_insert :: "bookmark list \<Rightarrow> bookmark \<Rightarrow> bookmark list" where
  "db_insert table row = row # table"

text \<open>\<open>delete().eq("id", id)\<close> under row-level security removes the caller's row only.\<close>

definition db_delete :: "user_key \<Rightarrow> bookmark_key \<Rightarrow> bookmark list \<Rightarrow> bookmark list" where
  "db_delete uid k table = filter (\<lambda>b. \<not> (bm_id b = k \<and> user_id b = uid)) table"

definition deleted_events :: "user_key \<Rightarrow> bookmark_key \<Rightarrow> bookmark list \<Rightarrow> change_event list" where
  "deleted_events uid k table =
     (if list_ex (\<lambda>b. bm_id b = k \<and> user_id b = uid) table then [DELETE k] else [])"

definition table_wf :: "bookmark list \<Rightarrow> bool" where
  "table_wf table =
     (distinct (map bm_id table) \<and> sorted_wrt (\<lambda>a b. created_at b < created_at a) table)"

section \<open>The realtime publication\<close>

text \<open>
  The channel's filter \<open>user_id=eq.userId\<close> selects inserted and updated rows by
  owner; Supabase does not filter delete events (their old record carries only
  the primary key), so every delete reaches every open channel.  A change is
  appended to the channel's queue if a channel is open when it is committed.
\<close>

fun channel_accepts :: "user_key \<Rightarrow> change_event \<Rightarrow> bool" where
  "channel_accepts uid (INSERT b) = (user_id b = uid)"
| "channel_accepts uid (UPDATE b) = (user_id b = uid)"
| "channel_accepts uid (DELETE k) = True"

definition publish :: "user_key option \<Rightarrow> change_event list \<Rightarrow> change_event list \<Rightarrow> change_event list" where
  "publish ch evs inbox =
     (case ch of None \<Rightarrow> inbox | Some uid \<Rightarrow> inbox @ filter (channel_accepts uid) evs)"

section \<open>Lemmas\<close>

lemma rls_select_insert [simp]:
  "rls_select uid (db_insert table row) =
     (if user_id row = uid then row # rls_select uid table else rls_select uid table)"
  by (simp add: rls_select_def db_insert_def)

lemma rls_select_delete [simp]:
  "rls_select uid (db_delete uid k table) = filter (\<lambda>b. bm_id b \<noteq> k) (rls_select uid table)"
  by (auto simp: rls_select_def db_delete_def filter_filter intro: filter_cong)

lemma rls_select_delete_other:
  "uid' \<noteq> uid \<Longrightarrow> rls_select uid (db_delete uid' k table) = rls_select uid table"
  by (auto simp: rls_select_def db_delete_def filter_filter intro: filter_cong)

lemma table_wf_insert:
  "table_wf table \<Longrightarrow> fresh_row table row \<Longrightarrow> table_wf (db_insert table row)"
  by (auto simp: table_wf_def fresh_row_def db_insert_def list_all_iff)

lemma table_wf_delete: "table_wf table \<Longrightarrow> table_wf (db_delete uid k table)"
  by (auto simp: table_wf_def db_delete_def distinct_map_filter sorted_wrt_filter)

lemma table_wf_rls: "table_wf table \<Longrightarrow> table_wf (rls_select uid table)"
  by (auto simp: table_wf_def rls_select_def distinct_map_filter sorted_wrt_filter)

lemma publish_None [simp]: "publish None evs inbox = inbox"
  by (simp add: publish_def)

lemma publish_Nil [simp]: "publish ch [] inbox = inbox"
  by (cases ch) (simp_all add: publish_def)

text \<open>On a table kept newest first, the dashboard's ordering returns the rows as they are.\<close>

lemma insort_key_newest:
  "\<forall>y\<in>set ys. f y < f x \<Longrightarrow> insort_key f x ys = ys @ [x]"
  by (induction ys) auto

lemma sort_key_strict_desc:
  "sorted_wrt (\<lambda>a b. created_at b < created_at a) xs \<Longrightarrow> sort_key created_at xs = rev xs"
  by (induction xs) (simp_all add: insort_key_newest)

end
