(* ===== verification/Manager.thy ===== *)
theory Manager
  imports Bookmark
begin

text \<open>
  The \<open>BookmarkManager\<close> client component of
  \<open>src/app/dashboard/bookmark-manager.tsx\<close> as a deterministic machine.  Its
  state is the component's five \<open>useState\<close> hooks, its props, the realtime
  channel its effect holds open, and the calls of its two \<open>async\<close> handlers that
  are suspended at an \<open>await\<close> (the JavaScript event loop resumes them when
  Supabase answers).  An input of the machine is one thing that can happen to the
  mounted component: the effect's setup and cleanup, a keystroke in one of the
  three inputs, a submit of the form, a click on a delete button, a realtime
  payload, or the answer to one suspended call.  The machine answers with its new
  state and the calls it makes on the outside world (\<open>effect\<close>).
\<close>

section \<open>State\<close>

text \<open>
  A suspended handler keeps the values it closed over: \<open>handleAdd\<close> the \<open>url\<close>,
  \<open>title\<close> and \<open>userId\<close> it sent, \<open>handleDelete\<close> the id.
\<close>

datatype pending_call =
    AwaitInsert string string user_key
  | AwaitDelete bookmark_key

record manager_state =
  userId :: user_key
  bookmarks :: "bookmark list"
  url_field :: string
  title_field :: string
  loading :: bool
  filter_field :: string
  channel :: "user_key option"
  in_flight :: "pending_call list"

text \<open>
  \<open>useState(initialBookmarks)\<close>, three empty strings and \<open>false\<close>; no channel is
  open before the effect runs, and no call is in flight.
\<close>

definition init_manager :: "bookmark list \<Rightarrow> user_key \<Rightarrow> manager_state" where
  "init_manager initialBookmarks uid =
     \<lparr>userId = uid, bookmarks = initialBookmarks, url_field = [], title_field = [],
      loading = False, filter_field = [], channel = None, in_flight = []\<rparr>"

section \<open>Inputs and outputs\<close>

text \<open>
  The calls the component makes: the Supabase insert and delete, opening the
  channel with the filter \<open>user_id=eq.userId\<close>, \<open>removeChannel\<close>, and
  \<open>alert\<close>.  A Supabase answer is \<open>{ error }\<close>: \<open>None\<close> for a null error.
\<close>

datatype effect =
    InsertRequest string string user_key
  | DeleteRequest bookmark_key
  | Subscribe user_key
  | RemoveChannel
  | Alert string

datatype ui_event =
    Mount
  | Unmount
  | TitleChange string
  | UrlChange string
  | FilterChange string
  | SubmitForm
  | ClickDelete bookmark_key
  | Realtime change_event
  | Settle nat "string option"

section \<open>The effect: the realtime channel\<close>

text \<open>
  \<open>useEffect\<close> (lines 30--55) opens one channel whose filter names the user and
  whose callback is \<open>on_postgres_change\<close>; its cleanup removes the channel.
  A payload reaches the callback only while the channel is open.
\<close>

definition effect_setup :: "manager_state \<Rightarrow> manager_state \<times> effect list" where
  "effect_setup s = (s\<lparr>channel := Some (userId s)\<rparr>, [Subscribe (userId s)])"

definition effect_cleanup :: "manager_state \<Rightarrow> manager_state \<times> effect list" where
  "effect_cleanup s = (s\<lparr>channel := None\<rparr>, [RemoveChannel])"

definition on_realtime :: "manager_state \<Rightarrow> change_event \<Rightarrow> manager_state" where
  "on_realtime s ev =
     (case channel s of
        None \<Rightarrow> s
      | Some _ \<Rightarrow> s\<lparr>bookmarks := on_postgres_change (bookmarks s) ev\<rparr>)"

section \<open>handleAdd\<close>

text \<open>
  Lines 57--77, split at the \<open>await\<close>.  Up to it: the guard on empty fields,
  \<open>setLoading(true)\<close> and the insert of \<open>{url, title, user_id: userId}\<close>.
  After it: on success the two fields are cleared, on an error the \<open>catch\<close>
  alerts; \<open>finally\<close> clears \<open>loading\<close> on both paths.
\<close>

definition handle_add :: "manager_state \<Rightarrow> manager_state \<times> effect list" where
  "handle_add s =
     (if url_field s = [] \<or> title_field s = [] then (s, [])
      else (s\<lparr>loading := True,
              in_flight := in_flight s @ [AwaitInsert (url_field s) (title_field s) (userId s)]\<rparr>,
            [InsertRequest (url_field s) (title_field s) (userId s)]))"

definition handle_add_settled :: "manager_state \<Rightarrow> string option \<Rightarrow> manager_state \<times> effect list" where
  "handle_add_settled s err =
     (case err of
        None \<Rightarrow> (s\<lparr>url_field := [], title_field := [], loading := False\<rparr>, [])
      | Some e \<Rightarrow> (s\<lparr>loading := False\<rparr>, [Alert ''Failed to add bookmark'']))"

text \<open>
  The form (lines 99--129): its submit button is \<open>disabled={loading}\<close>, which
  also blocks implicit submission, and both inputs are \<open>required\<close>, so the
  browser submits only a form with two non-empty fields.  The \<open>type="url"\<close>
  syntax check of the browser is not modelled (the model submits more forms, not
  fewer).
\<close>

definition submit_form :: "manager_state \<Rightarrow> manager_state \<times> effect list" where
  "submit_form s =
     (if loading s \<or> title_field s = [] \<or> url_field s = [] then (s, []) else handle_add s)"

section \<open>handleDelete\<close>

text \<open>
  Lines 79--88: the delete of the row with the id, and on an error an alert.
  Neither path touches \<open>bookmarks\<close>: the row disappears only when the realtime
  \<open>DELETE\<close> arrives.  A delete button exists only for a row the list renders
  (lines 156--189).
\<close>

definition handle_delete :: "manager_state \<Rightarrow> bookmark_key \<Rightarrow> manager_state \<times> effect list" where
  "handle_delete s k = (s\<lparr>in_flight := in_flight s @ [AwaitDelete k]\<rparr>, [DeleteRequest k])"

definition handle_delete_settled :: "manager_state \<Rightarrow> string option \<Rightarrow> manager_state \<times> effect list" where
  "handle_delete_settled s err =
     (case err of
        None \<Rightarrow> (s, [])
      | Some e \<Rightarrow> (s, [Alert ''Failed to delete bookmark'']))"

definition visible_bookmarks :: "manager_state \<Rightarrow> bookmark list" where
  "visible_bookmarks s = filtered_bookmarks (bookmarks s) (filter_field s)"

definition click_delete :: "manager_state \<Rightarrow> bookmark_key \<Rightarrow> manager_state \<times> effect list" where
  "click_delete s k =
     (if k \<in> set (map bm_id (visible_bookmarks s)) then handle_delete s k else (s, []))"

section \<open>Resuming a suspended call\<close>

fun resume :: "manager_state \<Rightarrow> pending_call \<Rightarrow> string option \<Rightarrow> manager_state \<times> effect list" where
  "resume s (AwaitInsert u t k) err = handle_add_settled s err"
| "resume s (AwaitDelete k) err = handle_delete_settled s err"

definition settle :: "manager_state \<Rightarrow> nat \<Rightarrow> string option \<Rightarrow> manager_state \<times> effect list" where
  "settle s i err =
     (if i < length (in_flight s)
      then resume (s\<lparr>in_flight := remove_at i (in_flight s)\<rparr>) (in_flight s ! i) err
      else (s, []))"

section \<open>The machine\<close>

text \<open>
  React runs the effect's setup once the component is mounted and its cleanup
  when it is unmounted; the \<open>onChange\<close> handlers (lines 109, 117, 142) store
  the input's value.
\<close>

fun manager_step :: "manager_state \<Rightarrow> ui_event \<Rightarrow> manager_state \<times> effect list" where
  "manager_step s Mount = (if channel s = None then effect_setup s else (s, []))"
| "manager_step s Unmount = (if channel s = None then (s, []) else effect_cleanup s)"
| "manager_step s (TitleChange v) = (s\<lparr>title_field := v\<rparr>, [])"
| "manager_step s (UrlChange v) = (s\<lparr>url_field := v\<rparr>, [])"
| "manager_step s (FilterChange v) = (s\<lparr>filter_field := v\<rparr>, [])"
| "manager_step s SubmitForm = submit_form s"
| "manager_step s (ClickDelete k) = click_delete s k"
| "manager_step s (Realtime ev) = (on_realtime s ev, [])"
| "manager_step s (Settle i err) = settle s i err"

fun manager_run :: "manager_state \<Rightarrow> ui_event list \<Rightarrow> manager_state \<times> effect list" where
  "manager_run s [] = (s, [])"
| "manager_run s (e # es) =
     (let (s1, out1) = manager_step s e; (s2, out2) = manager_run s1 es in (s2, out1 @ out2))"

section \<open>The component's invariant\<close>

text \<open>
  At most one \<open>handleAdd\<close> is suspended, exactly when \<open>loading\<close> is set, and
  every suspended insert carries the user's id and two non-empty fields.
\<close>

fun is_insert_call :: "pending_call \<Rightarrow> bool" where
  "is_insert_call (AwaitInsert u t k) = True"
| "is_insert_call (AwaitDelete k) = False"

fun call_owner_ok :: "user_key \<Rightarrow> pending_call \<Rightarrow> bool" where
  "call_owner_ok uid (AwaitInsert u t k) = (k = uid \<and> u \<noteq> [] \<and> t \<noteq> [])"
| "call_owner_ok uid (AwaitDelete k) = True"

definition manager_inv :: "manager_state \<Rightarrow> bool" where
  "manager_inv s =
     (length (filter is_insert_call (in_flight s)) = (if loading s then 1 else 0)
      \<and> list_all (call_owner_ok (userId s)) (in_flight s))"

text \<open>
  The channel calls of a run in order: \<open>channel_ok opened outs\<close> says that no
  channel is opened while one is open and none is removed while none is, starting
  from \<open>opened\<close>; \<open>channel_after\<close> is whether one is open at the end.
\<close>

fun channel_ok :: "bool \<Rightarrow> effect list \<Rightarrow> bool" where
  "channel_ok opened [] = True"
| "channel_ok opened (Subscribe u # r) = (\<not> opened \<and> channel_ok True r)"
| "channel_ok opened (RemoveChannel # r) = (opened \<and> channel_ok False r)"
| "channel_ok opened (x # r) = channel_ok opened r"

fun channel_after :: "bool \<Rightarrow> effect list \<Rightarrow> bool" where
  "channel_after opened [] = opened"
| "channel_after opened (Subscribe u # r) = channel_after True r"
| "channel_after opened (RemoveChannel # r) = channel_after False r"
| "channel_after opened (x # r) = channel_after opened r"

text \<open>
  The search field's reach: a click on a delete button is the one input whose
  effect depends on \<open>filter\<close> (only rendered rows have a button), and two
  states that differ at most in \<open>filter\<close> are \<open>same_but_filter\<close>.
\<close>

fun is_click_delete :: "ui_event \<Rightarrow> bool" where
  "is_click_delete (ClickDelete k) = True"
| "is_click_delete e = False"

definition same_but_filter :: "manager_state \<Rightarrow> manager_state \<Rightarrow> bool" where
  "same_but_filter s t = (s\<lparr>filter_field := []\<rparr> = t\<lparr>filter_field := []\<rparr>)"

text \<open>
  The inputs whose handling neither reads the array nor opens or closes the
  channel: keystrokes, submits and answers.
\<close>

fun delivery_independent :: "ui_event \<Rightarrow> bool" where
  "delivery_independent (TitleChange v) = True"
| "delivery_independent (UrlChange v) = True"
| "delivery_independent (FilterChange v) = True"
| "delivery_independent SubmitForm = True"
| "delivery_independent (Settle i r) = True"
| "delivery_independent e = False"

text \<open>A mounted component with a filled-in form, for the witnesses.\<close>

definition sample_form :: manager_state where
  "sample_form =
     \<lparr>userId = ''u1'', bookmarks = [google], url_field = ''https://bing.com'', title_field = ''Bing'',
      loading = False, filter_field = [], channel = Some ''u1'', in_flight = []\<rparr>"

section \<open>Lemmas of the machine\<close>

lemma manager_run_Cons_eq [simp]:
  "manager_run s (e # es) =
     (fst (manager_run (fst (manager_step s e)) es),
      snd (manager_step s e) @ snd (manager_run (fst (manager_step s e)) es))"
  by (simp split: prod.splits)

declare manager_run.simps(2) [simp del]

lemma manager_run_append:
  "manager_run s (es @ fs) =
     (fst (manager_run (fst (manager_run s es)) fs),
      snd (manager_run s es) @ snd (manager_run (fst (manager_run s es)) fs))"
  by (induction es arbitrary: s) auto

lemma submit_form_inv: "manager_inv s \<Longrightarrow> manager_inv (fst (submit_form s))"
  by (auto simp: submit_form_def handle_add_def manager_inv_def)

lemma click_delete_inv: "manager_inv s \<Longrightarrow> manager_inv (fst (click_delete s k))"
  by (auto simp: click_delete_def handle_delete_def manager_inv_def)

lemma settle_inv:
  assumes inv: "manager_inv s"
  shows "manager_inv (fst (settle s i err))"
proof (cases "i < length (in_flight s)")
  case True
  let ?p = "in_flight s ! i"
  have own: "list_all (call_owner_ok (userId s)) (remove_at i (in_flight s))"
    using inv set_remove_at_subset [of i "in_flight s"] by (auto simp: manager_inv_def list_all_iff)
  have cnt: "length (filter is_insert_call (remove_at i (in_flight s)))
      = length (filter is_insert_call (in_flight s)) - (if is_insert_call ?p then 1 else 0)"
    using True by (rule length_filter_remove_at)
  show ?thesis
  proof (cases ?p)
    case (AwaitInsert u t k)
    with inv cnt own True show ?thesis
      by (cases err) (auto simp: settle_def handle_add_settled_def manager_inv_def)
  next
    case (AwaitDelete k)
    with inv cnt own True show ?thesis
      by (cases err) (auto simp: settle_def handle_delete_settled_def manager_inv_def)
  qed
next
  case False
  with inv show ?thesis by (simp add: settle_def)
qed

lemma manager_step_inv: "manager_inv s \<Longrightarrow> manager_inv (fst (manager_step s e))"
proof (cases e)
  case SubmitForm
  then show "manager_inv s \<Longrightarrow> ?thesis" by (simp add: submit_form_inv)
next
  case (ClickDelete k)
  then show "manager_inv s \<Longrightarrow> ?thesis" by (simp add: click_delete_inv)
next
  case (Settle i err)
  then show "manager_inv s \<Longrightarrow> ?thesis" by (simp add: settle_inv)
qed (auto simp: manager_inv_def effect_setup_def effect_cleanup_def on_realtime_def split: option.splits)

lemma manager_run_inv: "manager_inv s \<Longrightarrow> manager_inv (fst (manager_run s es))"
proof (induction es arbitrary: s)
  case Nil
  then show ?case by simp
next
  case (Cons e es)
  from Cons.prems have "manager_inv (fst (manager_step s e))" by (rule manager_step_inv)
  then have "manager_inv (fst (manager_run (fst (manager_step s e)) es))" by (rule Cons.IH)
  then show ?case by simp
qed

lemma manager_inv_init: "manager_inv (init_manager bs uid)"
  by (simp add: manager_inv_def init_manager_def)

lemma channel_ok_append:
  "channel_ok b (xs @ ys) = (channel_ok b xs \<and> channel_ok (channel_after b xs) ys)"
  by (induction b xs rule: channel_ok.induct) auto

lemma settle_frame:
  "userId (fst (settle s i err)) = userId s \<and> bookmarks (fst (settle s i err)) = bookmarks s
   \<and> channel (fst (settle s i err)) = channel s \<and> filter_field (fst (settle s i err)) = filter_field s"
  by (cases "i < length (in_flight s)"; cases "in_flight s ! i"; cases err)
     (simp_all add: settle_def handle_add_settled_def handle_delete_settled_def)

lemma settle_effects:
  "set (snd (settle s i err)) \<subseteq> {Alert ''Failed to add bookmark'', Alert ''Failed to delete bookmark''}"
  by (cases "i < length (in_flight s)"; cases "in_flight s ! i"; cases err)
     (simp_all add: settle_def handle_add_settled_def handle_delete_settled_def)

lemma channel_ok_alerts:
  "set outs \<subseteq> {Alert a, Alert b} \<Longrightarrow> channel_ok c outs \<and> channel_after c outs = c"
  by (induction outs) auto

lemma manager_step_userId [simp]: "userId (fst (manager_step s e)) = userId s"
  by (cases e) (auto simp: settle_frame effect_setup_def effect_cleanup_def on_realtime_def submit_form_def
      handle_add_def click_delete_def handle_delete_def split: option.splits)

lemma manager_run_userId [simp]: "userId (fst (manager_run s es)) = userId s"
  by (induction es arbitrary: s) auto

lemma manager_step_channel:
  "channel_ok (channel s \<noteq> None) (snd (manager_step s e))
   \<and> channel_after (channel s \<noteq> None) (snd (manager_step s e)) = (channel (fst (manager_step s e)) \<noteq> None)"
proof (cases e)
  case (Settle i err)
  then show ?thesis using channel_ok_alerts [OF settle_effects [of s i err]] settle_frame [of s i err]
    by simp
qed (auto simp: effect_setup_def effect_cleanup_def on_realtime_def submit_form_def handle_add_def
                click_delete_def handle_delete_def split: option.splits)

lemma manager_run_channel:
  "channel_ok (channel s \<noteq> None) (snd (manager_run s es))"
proof (induction es arbitrary: s)
  case Nil
  then show ?case by simp
next
  case (Cons e es)
  have "channel_ok (channel (fst (manager_step s e)) \<noteq> None) (snd (manager_run (fst (manager_step s e)) es))"
    by (rule Cons.IH)
  with manager_step_channel [of s e] show ?case by (simp add: channel_ok_append)
qed

lemma closed_channel_ignores_events:
  "channel s = None \<Longrightarrow> manager_run s (map Realtime evs) = (s, [])"
  by (induction evs) (simp_all add: on_realtime_def)

lemma step_keeps_bookmarks:
  "(\<forall>ev. e \<noteq> Realtime ev) \<Longrightarrow> bookmarks (fst (manager_step s e)) = bookmarks s"
  by (cases e) (auto simp: settle_frame effect_setup_def effect_cleanup_def submit_form_def handle_add_def
                click_delete_def handle_delete_def)

lemma step_channel: "channel (fst (manager_step s e)) \<in> {None, Some (userId s), channel s}"
  by (cases e) (auto simp: settle_frame effect_setup_def effect_cleanup_def on_realtime_def submit_form_def
      handle_add_def click_delete_def handle_delete_def split: option.splits)

lemma settle_in_flight:
  "i < length (in_flight s) \<Longrightarrow> in_flight (fst (settle s i err)) = remove_at i (in_flight s)"
  by (cases "in_flight s ! i"; cases err)
     (simp_all add: settle_def handle_add_settled_def handle_delete_settled_def)

lemma user_step_in_flight_grows:
  "(\<forall>ev. e \<noteq> Realtime ev) \<Longrightarrow> (\<forall>i r. e \<noteq> Settle i r) \<Longrightarrow>
   length (in_flight s) \<le> length (in_flight (fst (manager_step s e)))"
  by (cases e) (auto simp: effect_setup_def effect_cleanup_def submit_form_def handle_add_def
      click_delete_def handle_delete_def)

lemmas add_flow_simps = submit_form_def handle_add_def settle_def remove_at_def handle_add_settled_def

lemma settle_on_realtime:
  "settle (on_realtime s ev) i err = (on_realtime (fst (settle s i err)) ev, snd (settle s i err))"
  by (cases "i < length (in_flight s)"; cases "in_flight s ! i"; cases err)
     (simp_all add: settle_def handle_add_settled_def handle_delete_settled_def on_realtime_def
       split: option.splits)

lemma on_realtime_frame [simp]:
  "in_flight (on_realtime v ev) = in_flight v" "channel (on_realtime v ev) = channel v"
  by (simp_all add: on_realtime_def split: option.splits)

lemma step_on_realtime:
  "delivery_independent e \<Longrightarrow>
   manager_step (on_realtime s ev) e = (on_realtime (fst (manager_step s e)) ev, snd (manager_step s e))"
proof (cases e)
  case (Settle i r)
  then show ?thesis by (simp add: settle_on_realtime)
qed (simp_all add: on_realtime_def submit_form_def handle_add_def split: option.splits)

lemma same_but_filter_eq: "same_but_filter s t \<Longrightarrow> t = s\<lparr>filter_field := filter_field t\<rparr>"
  by (cases s; cases t) (simp add: same_but_filter_def)

lemma same_but_filter_upd [simp]: "same_but_filter s (s\<lparr>filter_field := x\<rparr>)"
  by (simp add: same_but_filter_def)

lemma settle_filter:
  "settle (s\<lparr>filter_field := x\<rparr>) i err = (fst (settle s i err)\<lparr>filter_field := x\<rparr>, snd (settle s i err))"
  unfolding settle_def
  by (cases "in_flight s ! i") (simp_all add: handle_add_settled_def handle_delete_settled_def split: option.splits)

lemma step_filter_blind:
  assumes "same_but_filter s t" and "\<not> is_click_delete e"
  shows "same_but_filter (fst (manager_step s e)) (fst (manager_step t e))
         \<and> snd (manager_step s e) = snd (manager_step t e)"
proof -
  from assms(1) have t: "t = s\<lparr>filter_field := filter_field t\<rparr>" by (rule same_but_filter_eq)
  show ?thesis using assms(2)
    by (subst t, subst t, cases e)
       (simp_all add: same_but_filter_def effect_setup_def effect_cleanup_def submit_form_def handle_add_def
         on_realtime_def settle_filter split: option.splits)
qed

lemma run_filter_blind:
  "same_but_filter s t \<Longrightarrow> list_all (\<lambda>e. \<not> is_click_delete e) es \<Longrightarrow>
   same_but_filter (fst (manager_run s es)) (fst (manager_run t es))
   \<and> snd (manager_run s es) = snd (manager_run t es)"
proof (induction es arbitrary: s t)
  case Nil
  then show ?case by simp
next
  case (Cons e es)
  from step_filter_blind [OF Cons.prems(1)] Cons.prems(2)
  have "same_but_filter (fst (manager_step s e)) (fst (manager_step t e))"
    and "snd (manager_step s e) = snd (manager_step t e)" by simp_all
  with Cons.IH [of "fst (manager_step s e)" "fst (manager_step t e)"] Cons.prems(2)
  show ?case by simp
qed

section \<open>Properties of the component\<close>

text \<open>
  C11. In every state the component reaches from its initial state, at most one
  \<open>handleAdd\<close> is suspended, \<open>loading\<close> is set exactly while one is, and every
  suspended insert carries the signed-in user's id and two non-empty fields: the
  disabled submit button prevents a second insert while one is in flight.
\<close>

theorem manager_reachable_inv:
  "let s = fst (manager_run (init_manager bs uid) es) in
     length (filter is_insert_call (in_flight s)) \<le> 1
     \<and> (loading s \<longleftrightarrow> filter is_insert_call (in_flight s) \<noteq> [])
     \<and> list_all (call_owner_ok uid) (in_flight s)"
proof -
  let ?s = "fst (manager_run (init_manager bs uid) es)"
  have inv: "manager_inv ?s" by (rule manager_run_inv [OF manager_inv_init])
  have uid: "userId ?s = uid" by (simp add: init_manager_def)
  show ?thesis using inv uid by (auto simp: manager_inv_def Let_def split: if_splits)
qed

text \<open>
  C12. A submit of a filled-in form followed by a successful insert sends exactly
  one insert of the form's url and title with the user's id, then clears both
  fields and \<open>loading\<close>, and leaves the bookmarks to the realtime channel.
\<close>

theorem add_success_flow:
  assumes "\<not> loading s" and "in_flight s = []" and "title_field s \<noteq> []" and "url_field s \<noteq> []"
  shows "manager_run s [SubmitForm, Settle 0 None] =
    (s\<lparr>url_field := [], title_field := [], loading := False\<rparr>,
     [InsertRequest (url_field s) (title_field s) (userId s)])"
  using assms by (simp add: add_flow_simps)

theorem add_success_flow_witness:
  "manager_run sample_form [SubmitForm, Settle 0 None] =
    (sample_form\<lparr>url_field := [], title_field := [], loading := False\<rparr>,
     [InsertRequest ''https://bing.com'' ''Bing'' ''u1''])"
  using add_success_flow [of sample_form] by (simp add: sample_form_def)

text \<open>
  C13. When the insert fails, the component alerts "Failed to add bookmark" and
  returns to exactly the state before the submit: the fields are kept,
  \<open>loading\<close> is cleared, and no row is added.
\<close>

theorem add_failure_flow:
  assumes "\<not> loading s" and "in_flight s = []" and "title_field s \<noteq> []" and "url_field s \<noteq> []"
  shows "manager_run s [SubmitForm, Settle 0 (Some err)] =
    (s, [InsertRequest (url_field s) (title_field s) (userId s), Alert ''Failed to add bookmark''])"
  using assms by (simp add: add_flow_simps)

theorem add_failure_flow_witness:
  "manager_run sample_form [SubmitForm, Settle 0 (Some ''network'')] =
    (sample_form, [InsertRequest ''https://bing.com'' ''Bing'' ''u1'', Alert ''Failed to add bookmark''])"
  using add_failure_flow [of sample_form] by (simp add: sample_form_def)

text \<open>
  C14. A form with an empty title or url is rejected without any call to the
  database, both by the browser's \<open>required\<close> check and by the guard of
  \<open>handleAdd\<close> itself.
\<close>

theorem submit_rejects_empty:
  "title_field s = [] \<or> url_field s = [] \<Longrightarrow> manager_step s SubmitForm = (s, []) \<and> handle_add s = (s, [])"
  by (auto simp: submit_form_def handle_add_def)

theorem submit_rejects_empty_witness:
  "manager_step (sample_form\<lparr>title_field := []\<rparr>) SubmitForm = (sample_form\<lparr>title_field := []\<rparr>, [])
   \<and> handle_add (sample_form\<lparr>title_field := []\<rparr>) = (sample_form\<lparr>title_field := []\<rparr>, [])"
proof -
  have h: "title_field (sample_form\<lparr>title_field := []\<rparr>) = [] \<or> url_field (sample_form\<lparr>title_field := []\<rparr>) = []"
    by simp
  show ?thesis by (rule submit_rejects_empty [OF h])
qed

text \<open>
  C15. Only a realtime payload changes the bookmarks: no handler inserts or
  removes a row itself (no optimistic update, so none to undo).
\<close>

theorem commands_keep_bookmarks:
  "(\<forall>ev. e \<noteq> Realtime ev) \<Longrightarrow> bookmarks (fst (manager_step s e)) = bookmarks s"
  by (rule step_keeps_bookmarks)

theorem commands_keep_bookmarks_witness:
  "bookmarks (fst (manager_step sample_form SubmitForm)) = [google]"
proof -
  have h: "\<forall>ev. SubmitForm \<noteq> Realtime ev" by simp
  show ?thesis using commands_keep_bookmarks [OF h, of sample_form] by (simp add: sample_form_def)
qed

text \<open>
  C16. A click on a rendered row's delete button whose delete fails sends one
  delete, alerts "Failed to delete bookmark", and leaves the state as it was: the
  row is still there.
\<close>

theorem failed_delete_keeps_row:
  assumes "k \<in> set (map bm_id (visible_bookmarks s))" and "in_flight s = []"
  shows "manager_run s [ClickDelete k, Settle 0 (Some err)] =
    (s, [DeleteRequest k, Alert ''Failed to delete bookmark''])"
  using assms
  by (simp add: click_delete_def handle_delete_def settle_def remove_at_def handle_delete_settled_def)

theorem failed_delete_keeps_row_witness:
  "manager_run sample_form [ClickDelete ''1'', Settle 0 (Some ''denied'')] =
    (sample_form, [DeleteRequest ''1'', Alert ''Failed to delete bookmark''])"
proof -
  have h1: "''1'' \<in> set (map bm_id (visible_bookmarks sample_form))"
    by (simp add: sample_form_def visible_bookmarks_def filtered_bookmarks_def matches_filter_def google_def)
  have h2: "in_flight sample_form = []" by (simp add: sample_form_def)
  show ?thesis by (rule failed_delete_keeps_row [OF h1 h2])
qed

text \<open>
  C17. Once the effect's cleanup has run, no realtime payload changes the
  component any more: teardown stops applying events.
\<close>

theorem unmount_stops_events:
  "manager_run (fst (manager_step s Unmount)) (map Realtime evs) = (fst (manager_step s Unmount), [])"
proof -
  have "channel (fst (manager_step s Unmount)) = None" by (simp add: effect_cleanup_def)
  then show ?thesis by (rule closed_channel_ignores_events)
qed

text \<open>
  C18. Over any run of the component, its channel calls alternate: a channel is
  opened only when none is open and removed only when one is, so at most one
  subscription is ever active and none leaks across a remount.
\<close>

theorem channel_calls_alternate:
  "channel_ok False (snd (manager_run (init_manager bs uid) es))"
  using manager_run_channel [of "init_manager bs uid" es] by (simp add: init_manager_def)

text \<open>
  C19. A successful insert clears the title field as it is when the answer
  arrives: text typed into the field while the insert was in flight is lost.
\<close>

theorem typing_during_add_lost:
  assumes "\<not> loading s" and "in_flight s = []" and "title_field s \<noteq> []" and "url_field s \<noteq> []"
  shows "title_field (fst (manager_run s [SubmitForm, TitleChange v, Settle 0 None])) = []"
  using assms by (simp add: add_flow_simps)

theorem typing_during_add_lost_witness:
  "title_field (fst (manager_run sample_form [SubmitForm, TitleChange ''Bing search'', Settle 0 None])) = []"
  using typing_during_add_lost [of sample_form] by (simp add: sample_form_def)

text \<open>
  C28. Typing in the search box never changes what the component sends or
  holds: over any run without a delete click, a different search term yields the
  same calls to Supabase, the same list and the same suspended calls.
\<close>

theorem search_never_reaches_database:
  "list_all (\<lambda>e. \<not> is_click_delete e) es \<Longrightarrow>
   snd (manager_run (s\<lparr>filter_field := v\<rparr>) es) = snd (manager_run s es)
   \<and> bookmarks (fst (manager_run (s\<lparr>filter_field := v\<rparr>) es)) = bookmarks (fst (manager_run s es))
   \<and> in_flight (fst (manager_run (s\<lparr>filter_field := v\<rparr>) es)) = in_flight (fst (manager_run s es))"
proof -
  assume h: "list_all (\<lambda>e. \<not> is_click_delete e) es"
  from run_filter_blind [OF same_but_filter_upd [of s v] h]
  have "same_but_filter (fst (manager_run s es)) (fst (manager_run (s\<lparr>filter_field := v\<rparr>) es))"
   and "snd (manager_run s es) = snd (manager_run (s\<lparr>filter_field := v\<rparr>) es)" by simp_all
  note eq = same_but_filter_eq [OF this(1)]
  have "bookmarks (fst (manager_run (s\<lparr>filter_field := v\<rparr>) es)) = bookmarks (fst (manager_run s es))"
    and "in_flight (fst (manager_run (s\<lparr>filter_field := v\<rparr>) es)) = in_flight (fst (manager_run s es))"
    by (subst eq, simp)+
  with \<open>snd (manager_run s es) = _\<close> show ?thesis by simp
qed
theorem search_never_reaches_database_witness:
  "snd (manager_run (sample_form\<lparr>filter_field := ''bing''\<rparr>) [SubmitForm, Realtime (DELETE ''1'')])
     = snd (manager_run sample_form [SubmitForm, Realtime (DELETE ''1'')])
   \<and> bookmarks (fst (manager_run (sample_form\<lparr>filter_field := ''bing''\<rparr>) [SubmitForm, Realtime (DELETE ''1'')]))
     = bookmarks (fst (manager_run sample_form [SubmitForm, Realtime (DELETE ''1'')]))
   \<and> in_flight (fst (manager_run (sample_form\<lparr>filter_field := ''bing''\<rparr>) [SubmitForm, Realtime (DELETE ''1'')]))
     = in_flight (fst (manager_run sample_form [SubmitForm, Realtime (DELETE ''1'')]))"
  using search_never_reaches_database [where es = "[SubmitForm, Realtime (DELETE ''1'')]" and s = sample_form and v = "''bing''"]
  by simp

end
