(* ===== verification/Routing.thy ===== *)
theory Routing
  imports Manager
begin

text \<open>
  The three server components of the app router and what each renders or where
  each redirects, as a function of the session: \<open>src/app/page.tsx\<close> (\<open>Home\<close>),
  \<open>src/app/login/page.tsx\<close> (\<open>LoginPage\<close>) and
  \<open>src/app/dashboard/page.tsx\<close> (\<open>DashboardPage\<close>, with its snapshot query and
  its \<open>handleSignOut\<close> server action).  \<open>redirect\<close> of \<open>next/navigation\<close>
  ends the render; the browser then requests the target route.  Following the
  redirects is \<open>navigate\<close>, with fuel: each redirect spends one unit, and running
  out is \<open>None\<close>.
\<close>

section \<open>Routes, sessions and pages\<close>

datatype route = HomeRoute | LoginRoute | DashboardRoute

text \<open>
  The app router serves a page per directory of \<open>src/app\<close>: \<open>/\<close>,
  \<open>/login\<close> and \<open>/dashboard\<close>.  \<open>redirect\<close> and \<open>Link\<close> name a route
  by its path; a path of no page is \<open>None\<close>.
\<close>

fun route_path :: "route \<Rightarrow> string" where
  "route_path HomeRoute = ''/''"
| "route_path LoginRoute = ''/login''"
| "route_path DashboardRoute = ''/dashboard''"

definition parse_route :: "string \<Rightarrow> route option" where
  "parse_route p =
     (if p = ''/'' then Some HomeRoute
      else if p = ''/login'' then Some LoginRoute
      else if p = ''/dashboard'' then Some DashboardRoute
      else None)"

text \<open>\<open>supabase.auth.getUser()\<close> answers the signed-in user, or \<open>null\<close>.\<close>

record auth_user =
  auth_id :: user_key
  email :: string

text \<open>
  A page either redirects or renders; the dashboard renders the header with the
  user's e-mail and a \<open>BookmarkManager\<close> with its two props.
\<close>

datatype page_result =
    Redirect string
  | RenderLanding
  | RenderLogin
  | RenderDashboard string "bookmark list" user_key

section \<open>The snapshot query\<close>

text \<open>
  \<open>from("bookmarks").select("*").order("created_at", {ascending: false})\<close>:
  the rows the database lets the session read, newest first (Postgres leaves the
  order of equal timestamps open; the model reverses a stable ascending sort).
  The query names no \<open>user_id\<close>: which rows it reads is decided by the
  database's row-level security, which is not in the repository.  \<open>data\<close> is
  \<open>null\<close> on an error, and the page passes \<open>bookmarks || []\<close>.
\<close>

definition order_created_desc :: "bookmark list \<Rightarrow> bookmark list" where
  "order_created_desc rows = rev (sort_key created_at rows)"

definition initial_bookmarks :: "bookmark list option \<Rightarrow> bookmark list" where
  "initial_bookmarks data = (case data of None \<Rightarrow> [] | Some rows \<Rightarrow> order_created_desc rows)"

section \<open>The pages\<close>

definition home_page :: "auth_user option \<Rightarrow> page_result" where
  "home_page user = (case user of Some u \<Rightarrow> Redirect ''/dashboard'' | None \<Rightarrow> RenderLanding)"

definition login_page :: "auth_user option \<Rightarrow> page_result" where
  "login_page user = (case user of Some u \<Rightarrow> Redirect ''/dashboard'' | None \<Rightarrow> RenderLogin)"

definition dashboard_page :: "auth_user option \<Rightarrow> bookmark list option \<Rightarrow> page_result" where
  "dashboard_page user data =
     (case user of
        None \<Rightarrow> Redirect ''/login''
      | Some u \<Rightarrow> RenderDashboard (email u) (initial_bookmarks data) (auth_id u))"

fun serve :: "route \<Rightarrow> auth_user option \<Rightarrow> bookmark list option \<Rightarrow> page_result" where
  "serve HomeRoute user data = home_page user"
| "serve LoginRoute user data = login_page user"
| "serve DashboardRoute user data = dashboard_page user data"

text \<open>The server action of the log-out form: sign out, then redirect to \<open>/\<close>.\<close>

definition handle_sign_out :: "auth_user option \<Rightarrow> auth_user option \<times> page_result" where
  "handle_sign_out user = (None, Redirect ''/'')"

section \<open>Following redirects\<close>

fun navigate :: "nat \<Rightarrow> route \<Rightarrow> auth_user option \<Rightarrow> bookmark list option \<Rightarrow> page_result option" where
  "navigate 0 r user data = None"
| "navigate (Suc n) r user data =
     (case serve r user data of
        Redirect p \<Rightarrow> (case parse_route p of None \<Rightarrow> None | Some r' \<Rightarrow> navigate n r' user data)
      | page \<Rightarrow> Some page)"

text \<open>The component the dashboard mounts, in its initial state.\<close>

fun mounted_manager :: "page_result \<Rightarrow> manager_state option" where
  "mounted_manager (RenderDashboard e bs uid) = Some (init_manager bs uid)"
| "mounted_manager p = None"

definition is_render :: "page_result \<Rightarrow> bool" where
  "is_render p = (case p of Redirect r \<Rightarrow> False | _ \<Rightarrow> True)"

text \<open>
  Where the browser ends up from a route: a signed-in user on the dashboard, a
  signed-out user on the landing page from \<open>/\<close> and on the login page otherwise.
\<close>

definition destination :: "route \<Rightarrow> auth_user option \<Rightarrow> bookmark list option \<Rightarrow> page_result" where
  "destination r user data =
     (case user of
        Some u \<Rightarrow> RenderDashboard (email u) (initial_bookmarks data) (auth_id u)
      | None \<Rightarrow> (if r = HomeRoute then RenderLanding else RenderLogin))"

definition sample_user :: auth_user where
  "sample_user = \<lparr>auth_id = ''u1'', email = ''ada@example.org''\<rparr>"

section \<open>Lemmas\<close>

lemmas page_defs = home_page_def login_page_def dashboard_page_def

lemma parse_route_app_paths [simp]:
  "parse_route ''/'' = Some HomeRoute"
  "parse_route ''/login'' = Some LoginRoute"
  "parse_route ''/dashboard'' = Some DashboardRoute"
  by (simp_all add: parse_route_def)

lemma navigate_mono:
  "navigate n r user data = Some q \<Longrightarrow> navigate (Suc n) r user data = Some q"
proof (induction n arbitrary: r)
  case 0
  then show ?case by simp
next
  case (Suc n)
  show ?case
  proof (cases "serve r user data")
    case (Redirect p)
    with Suc.prems obtain r' where r': "parse_route p = Some r'" and "navigate n r' user data = Some q"
      by (auto split: option.splits)
    then have "navigate (Suc n) r' user data = Some q" by (rule_tac Suc.IH)
    with Redirect r' show ?thesis by (simp del: navigate.simps(2) add: navigate.simps(2) [of "Suc n"])
  qed (use Suc.prems in \<open>auto split: page_result.splits\<close>)
qed

lemma navigate_render: "navigate n r user data = Some p \<Longrightarrow> is_render p"
  by (induction n arbitrary: r) (auto simp: is_render_def split: page_result.splits option.splits)


section \<open>Properties of the routing\<close>

text \<open>
  C20. A \<open>BookmarkManager\<close> is mounted only by a page served to a signed-in
  user, with that user's id as \<open>userId\<close>, the snapshot as its bookmarks, no
  channel open yet and no call in flight.
\<close>

theorem manager_mounted_only_signed_in:
  "mounted_manager (serve r user data) = Some m \<Longrightarrow>
   \<exists>u. user = Some u \<and> userId m = auth_id u \<and> bookmarks m = initial_bookmarks data
       \<and> channel m = None \<and> in_flight m = []"
  by (cases r; cases user) (auto simp: init_manager_def page_defs)

theorem manager_mounted_only_signed_in_witness:
  "\<exists>u. Some sample_user = Some u \<and> userId (init_manager [google] ''u1'') = auth_id u
       \<and> bookmarks (init_manager [google] ''u1'') = initial_bookmarks (Some [google])
       \<and> channel (init_manager [google] ''u1'') = None \<and> in_flight (init_manager [google] ''u1'') = []"
proof -
  have h: "mounted_manager (serve DashboardRoute (Some sample_user) (Some [google]))
      = Some (init_manager [google] ''u1'')"
    by (simp add: page_defs sample_user_def initial_bookmarks_def order_created_desc_def)
  show ?thesis by (rule manager_mounted_only_signed_in [OF h])
qed

text \<open>
  C21. Following redirects never loops: from any route, in any session, two
  page loads are enough fuel, and the browser ends where \<open>destination\<close> says.
\<close>

theorem navigate_enough_fuel:
  "2 \<le> n \<Longrightarrow> navigate n r user data = Some (destination r user data)"
proof -
  assume n: "2 \<le> n"
  have two: "navigate 2 r user data = Some (destination r user data)"
    by (cases r; cases user) (simp_all add: destination_def numeral_2_eq_2 page_defs)
  have "navigate (2 + k) r user data = Some (destination r user data)" for k
  proof (induction k)
    case 0
    show ?case using two by simp
  next
    case (Suc k)
    then show ?case by (metis add_Suc_right navigate_mono)
  qed
  moreover from n have "n = 2 + (n - 2)" by simp
  ultimately show ?thesis by metis
qed

theorem navigate_enough_fuel_witness:
  "navigate 2 HomeRoute None None = Some RenderLanding"
proof -
  have h: "2 \<le> (2::nat)" by simp
  show ?thesis using navigate_enough_fuel [OF h, of HomeRoute None None] by (simp add: destination_def)
qed


end
