(* ===== verification/Sync.thy ===== *)
theory Sync
  imports Store Routing
begin

text \<open>
  The whole system for one signed-in user: the table, the dashboard's snapshot,
  the mounted \<open>BookmarkManager\<close>, the changes published to its channel and not
  yet delivered, and the answers of the database that the component has not yet
  received.  A step is one thing that happens: a user action on the component,
  the database executing one of the component's requests, the answer reaching
  the component, the channel delivering its oldest change, another session
  (another tab, device or user) changing the table, a reload of the page, or
  the realtime server joining the channel or losing the connection.  The environment's choices
  (the id and timestamp of a new row, an error of the database) are arguments of
  the step, and a choice the store would never make (a used id, an older
  timestamp) leaves the state unchanged.
\<close>

section \<open>State and steps\<close>

text \<open>
  \<open>answers\<close> runs beside the component's \<open>in_flight\<close>: \<open>None\<close> while the request
  is not yet executed, \<open>Some r\<close> once the database has answered \<open>r\<close>.
  \<open>joined\<close> is the realtime server's side of the channel: \<open>subscribe()\<close>
  only asks to join, and the server publishes to the channel from the moment it
  has joined; a dropped connection leaves it until the client library joins
  again.  The server does not replay what was committed in between.
  \<open>missed\<close> records that a change of the table happened while the server was
  not publishing to an open channel, or a delivery while no channel was open:
  the ways the component loses track of the table.
\<close>

record system =
  table :: "bookmark list"
  view :: manager_state
  inbox :: "change_event list"
  answers :: "string option option list"
  missed :: bool
  joined :: bool

datatype sys_event =
    UserAct ui_event
  | DbExec nat bookmark_key string "string option"
  | Reply nat
  | Deliver
  | ExtInsert bookmark
  | ExtDelete user_key bookmark_key
  | Reload bool
  | Join
  | Drop

text \<open>
  The dashboard's query of the snapshot: the rows that row-level security lets
  the user read, or, when the query fails (\<open>ok\<close> false), no data.  The
  page reads only \<open>data\<close>, never the query's \<open>error\<close>.
\<close>

definition snapshot_query :: "bool \<Rightarrow> user_key \<Rightarrow> bookmark list \<Rightarrow> bookmark list option" where
  "snapshot_query ok uid tbl = (if ok then Some (rls_select uid tbl) else None)"

text \<open>
  The dashboard renders the snapshot and mounts the component with
  \<open>bookmarks || []\<close> (\<open>Routing.dashboard_page\<close>); nothing is published
  before the effect has opened the channel.  A failed query mounts the
  component with an empty list: when the user has rows, it has lost track of
  the table from the start.
\<close>

definition sys_init :: "auth_user \<Rightarrow> bookmark list \<Rightarrow> bool \<Rightarrow> system" where
  "sys_init u tbl ok =
     \<lparr>table = tbl,
      view = init_manager (initial_bookmarks (snapshot_query ok (auth_id u) tbl)) (auth_id u),
      inbox = [], answers = [], missed = (\<not> ok \<and> rls_select (auth_id u) tbl \<noteq> []), joined = False\<rparr>"

text \<open>A user action: the events the user (or React) causes on the component.\<close>

fun user_event :: "ui_event \<Rightarrow> bool" where
  "user_event (Realtime ev) = False"
| "user_event (Settle i r) = False"
| "user_event e = True"

text \<open>The channel the server publishes to: the component's, once joined.\<close>

definition listening :: "system \<Rightarrow> user_key option" where
  "listening s = (if joined s then channel (view s) else None)"

definition table_change :: "system \<Rightarrow> bookmark list \<Rightarrow> change_event list \<Rightarrow> system" where
  "table_change s tbl evs =
     s\<lparr>table := tbl, inbox := publish (listening s) evs (inbox s),
       missed := (missed s \<or> listening s = None \<and> evs \<noteq> [])\<rparr>"

text \<open>
  A user action steps the component.  When it closes the channel (the cleanup
  of an unmount, \<open>removeChannel\<close>), the channel's queue is dropped with it:
  the changes in it never reach any component, and if there were any the
  array has lost track of the table.
\<close>

definition user_act :: "system \<Rightarrow> ui_event \<Rightarrow> system" where
  "user_act s e =
     (if user_event e then
        (let v = fst (manager_step (view s) e)
         in s\<lparr>view := v,
              answers := answers s @ replicate (length (in_flight v) - length (in_flight (view s))) None,
              inbox := (if channel v = None then [] else inbox s),
              missed := (missed s \<or> channel v = None \<and> inbox s \<noteq> []),
              joined := (joined s \<and> channel v \<noteq> None)\<rparr>)
      else s)"

text \<open>
  The database executes the \<open>i\<close>-th request: an insert of the row the component
  asked for, with the id and timestamp the store picks, or the caller's delete;
  on an error nothing changes but the answer.
\<close>

fun exec_call :: "system \<Rightarrow> pending_call \<Rightarrow> bookmark_key \<Rightarrow> string \<Rightarrow> string option \<Rightarrow> (bookmark list \<times> change_event list) option" where
  "exec_call s (AwaitInsert u t k) rid now None =
     (let row = \<lparr>bm_id = rid, created_at = now, user_id = k, url = u, title = t\<rparr>
      in if fresh_row (table s) row then Some (db_insert (table s) row, [INSERT row]) else None)"
| "exec_call s (AwaitDelete k) rid now None =
     Some (db_delete (userId (view s)) k (table s), deleted_events (userId (view s)) k (table s))"
| "exec_call s p rid now (Some e) = Some (table s, [])"

definition db_exec :: "system \<Rightarrow> nat \<Rightarrow> bookmark_key \<Rightarrow> string \<Rightarrow> string option \<Rightarrow> system" where
  "db_exec s i rid now err =
     (if i < length (answers s) \<and> answers s ! i = None \<and> i < length (in_flight (view s)) then
        (case exec_call s (in_flight (view s) ! i) rid now err of
           None \<Rightarrow> s
         | Some (tbl, evs) \<Rightarrow> (table_change s tbl evs)\<lparr>answers := (answers s)[i := Some err]\<rparr>)
      else s)"

definition reply :: "system \<Rightarrow> nat \<Rightarrow> system" where
  "reply s i =
     (if i < length (answers s) then
        (case answers s ! i of
           None \<Rightarrow> s
         | Some r \<Rightarrow> s\<lparr>view := fst (manager_step (view s) (Settle i r)),
                         answers := remove_at i (answers s)\<rparr>)
      else s)"

definition deliver :: "system \<Rightarrow> system" where
  "deliver s =
     (case inbox s of
        [] \<Rightarrow> s
      | ev # rest \<Rightarrow> s\<lparr>view := fst (manager_step (view s) (Realtime ev)), inbox := rest,
                      missed := (missed s \<or> channel (view s) = None)\<rparr>)"

text \<open>
  Reloading the dashboard renders \<open>DashboardPage\<close> again: a new snapshot
  query, which may fail as on the first load, and a new \<open>BookmarkManager\<close>
  in its initial state.  The
  old instance is unmounted, so its channel and its queue are gone, and the
  answers to its pending requests no longer reach any component (the database
  may still execute them; to the new instance that is a change by another
  session).
\<close>

definition reload :: "system \<Rightarrow> bool \<Rightarrow> system" where
  "reload s ok =
     s\<lparr>view := init_manager (initial_bookmarks (snapshot_query ok (userId (view s)) (table s))) (userId (view s)),
       inbox := [], answers := [],
       missed := (\<not> ok \<and> rls_select (userId (view s)) (table s) \<noteq> []), joined := False\<rparr>"

fun sys_step :: "system \<Rightarrow> sys_event \<Rightarrow> system" where
  "sys_step s (UserAct e) = user_act s e"
| "sys_step s (DbExec i rid now err) = db_exec s i rid now err"
| "sys_step s (Reply i) = reply s i"
| "sys_step s Deliver = deliver s"
| "sys_step s (ExtInsert row) =
     (if fresh_row (table s) row then table_change s (db_insert (table s) row) [INSERT row] else s)"
| "sys_step s (ExtDelete uid k) =
     table_change s (db_delete uid k (table s)) (deleted_events uid k (table s))"
| "sys_step s (Reload ok) = reload s ok"
| "sys_step s Join = s\<lparr>joined := (channel (view s) \<noteq> None)\<rparr>"
| "sys_step s Drop = s\<lparr>joined := False\<rparr>"

definition sys_run :: "system \<Rightarrow> sys_event list \<Rightarrow> system" where
  "sys_run s es = foldl sys_step s es"

inductive sys_reach :: "auth_user \<Rightarrow> system \<Rightarrow> bool" for u where
  init: "table_wf tbl \<Longrightarrow> sys_reach u (sys_init u tbl ok)"
| step: "sys_reach u s \<Longrightarrow> sys_reach u (sys_step s e)"

section \<open>The consistency invariant\<close>

text \<open>
  Applying the changes still queued for the channel to the component's array
  gives exactly the user's rows of the table, in the table's order.
\<close>

definition consistent :: "user_key \<Rightarrow> system \<Rightarrow> bool" where
  "consistent uid s = (apply_changes (bookmarks (view s)) (inbox s) = rls_select uid (table s))"

definition sys_inv :: "auth_user \<Rightarrow> system \<Rightarrow> bool" where
  "sys_inv u s =
     (table_wf (table s) \<and> userId (view s) = auth_id u
      \<and> channel (view s) \<in> {None, Some (auth_id u)}
      \<and> length (answers s) = length (in_flight (view s))
      \<and> (\<not> missed s \<longrightarrow> consistent (auth_id u) s))"

section \<open>Sample runs\<close>

text \<open>
  The user adds Bing to a table holding Google: the channel opens, the form is
  filled in and submitted, the database inserts the row and answers; the change
  is still queued.  And the race: another session inserts Bing between the
  snapshot and the opening of the channel.
\<close>

definition add_run :: "sys_event list" where
  "add_run = [UserAct Mount, Join, UserAct (TitleChange ''Bing''), UserAct (UrlChange ''https://bing.com''),
              UserAct SubmitForm, DbExec 0 ''2'' ''2024-01-02T09:00:00'' None, Reply 0]"

definition add_state :: system where
  "add_state = sys_run (sys_init sample_user [google] True) add_run"

text \<open>A later row of the same user, for the channel-loss scenario.\<close>

definition yahoo :: bookmark where
  "yahoo = \<lparr>bm_id = ''3'', created_at = ''2024-01-03T09:00:00'', user_id = ''u1'',
            url = ''https://yahoo.com'', title = ''Yahoo''\<rparr>"


section \<open>Lemmas of the system\<close>

text \<open>On a well-formed table the snapshot the dashboard reads is the user's rows as they are.\<close>

lemma snapshot_of_wf_table:
  "table_wf tbl \<Longrightarrow> initial_bookmarks (Some (rls_select uid tbl)) = rls_select uid tbl"
proof -
  assume "table_wf tbl"
  then have "table_wf (rls_select uid tbl)" by (rule table_wf_rls)
  then show ?thesis
    by (simp add: table_wf_def initial_bookmarks_def order_created_desc_def sort_key_strict_desc)
qed

text \<open>A snapshot that did not fail, or failed with no row of the user to read,
  is the user's rows.\<close>

lemma snapshot_query_wf:
  "table_wf tbl \<Longrightarrow> \<not> (\<not> ok \<and> rls_select uid tbl \<noteq> []) \<Longrightarrow>
   initial_bookmarks (snapshot_query ok uid tbl) = rls_select uid tbl"
  by (cases ok) (simp_all add: snapshot_query_def snapshot_of_wf_table initial_bookmarks_def [of None])

text \<open>With no channel open, a payload changes nothing (the callback is gone).\<close>

lemma on_realtime_closed: "channel v = None \<Longrightarrow> on_realtime v ev = v"
  by (simp add: on_realtime_def)

lemma apply_changes_snoc:
  "apply_changes bs (es @ [e]) = on_postgres_change (apply_changes bs es) e"
  by (simp add: apply_changes_append)

lemma apply_changes_filter_snoc:
  "apply_changes bs (es @ filter P [e]) = (if P e then on_postgres_change (apply_changes bs es) e else apply_changes bs es)"
  by (simp add: apply_changes_snoc)

lemma no_row_filter_id:
  "\<not> list_ex (\<lambda>b. bm_id b = k \<and> user_id b = uid) tbl \<Longrightarrow>
   filter (\<lambda>b. bm_id b \<noteq> k) (rls_select uid tbl) = rls_select uid tbl"
  by (auto simp: rls_select_def list_ex_iff filter_filter intro!: filter_cong)

lemma foreign_row_filter_id:
  "distinct (map bm_id tbl) \<Longrightarrow> list_ex (\<lambda>b. bm_id b = k \<and> user_id b = uid') tbl \<Longrightarrow> uid' \<noteq> uid \<Longrightarrow>
   filter (\<lambda>b. bm_id b \<noteq> k) (rls_select uid tbl) = rls_select uid tbl"
proof -
  assume d: "distinct (map bm_id tbl)" and ex: "list_ex (\<lambda>b. bm_id b = k \<and> user_id b = uid') tbl"
    and ne: "uid' \<noteq> uid"
  from ex obtain r where r: "r \<in> set tbl" "bm_id r = k" "user_id r = uid'" by (auto simp: list_ex_iff)
  have "bm_id b \<noteq> k" if "b \<in> set tbl" "user_id b = uid" for b
  proof
    assume "bm_id b = k"
    with r d that have "b = r" by (metis distinct_map inj_onD)
    with r ne that show False by simp
  qed
  then show ?thesis by (auto simp: rls_select_def filter_filter intro!: filter_cong)
qed

lemma consistent_insert:
  assumes "consistent uid s" and "listening s = Some uid"
  shows "consistent uid (table_change s (db_insert (table s) row) [INSERT row])"
  using assms by (simp add: consistent_def table_change_def publish_def apply_changes_snoc)

lemma consistent_delete:
  assumes "consistent uid s" and "listening s = Some uid \<or> deleted_events uid' k (table s) = []"
    and "distinct (map bm_id (table s))"
  shows "consistent uid (table_change s (db_delete uid' k (table s)) (deleted_events uid' k (table s)))"
proof (cases "uid' = uid")
  case True
  with assms show ?thesis
    by (auto simp: consistent_def table_change_def publish_def deleted_events_def apply_changes_snoc
                   no_row_filter_id split: option.splits if_splits)
next
  case False
  with assms show ?thesis
    by (auto simp: consistent_def table_change_def publish_def deleted_events_def apply_changes_snoc
                   rls_select_delete_other foreign_row_filter_id split: option.splits if_splits)
qed

lemma inv_table_change:
  assumes inv: "sys_inv u s" and wf: "table_wf tbl"
    and cons: "\<not> missed s \<Longrightarrow> listening s = Some (auth_id u) \<or> evs = [] \<Longrightarrow>
               consistent (auth_id u) (table_change s tbl evs)"
  shows "sys_inv u (table_change s tbl evs)"
proof -
  have "\<not> missed (table_change s tbl evs) \<Longrightarrow> consistent (auth_id u) (table_change s tbl evs)"
    using inv cons by (auto simp: sys_inv_def table_change_def listening_def split: if_splits)
  with inv wf show ?thesis by (auto simp: sys_inv_def table_change_def)
qed

lemma inv_no_change: "sys_inv u s \<Longrightarrow> sys_inv u (table_change s (table s) [])"
  by (rule inv_table_change) (simp_all add: sys_inv_def consistent_def table_change_def)

lemma inv_ext_insert:
  assumes inv: "sys_inv u s"
  shows "sys_inv u (sys_step s (ExtInsert row))"
proof (cases "fresh_row (table s) row")
  case True
  have wf: "table_wf (db_insert (table s) row)"
    using inv True by (simp add: sys_inv_def table_wf_insert)
  have "sys_inv u (table_change s (db_insert (table s) row) [INSERT row])"
  proof (rule inv_table_change [OF inv wf])
    assume "\<not> missed s" and "listening s = Some (auth_id u) \<or> [INSERT row] = []"
    with inv show "consistent (auth_id u) (table_change s (db_insert (table s) row) [INSERT row])"
      by (simp add: sys_inv_def consistent_insert)
  qed
  with True show ?thesis by simp
next
  case False
  with inv show ?thesis by simp
qed

lemma inv_delete:
  assumes inv: "sys_inv u s"
  shows "sys_inv u (table_change s (db_delete uid k (table s)) (deleted_events uid k (table s)))"
proof -
  have wf: "table_wf (db_delete uid k (table s))"
    using inv by (simp add: sys_inv_def table_wf_delete)
  show ?thesis
  proof (rule inv_table_change [OF inv wf])
    assume "\<not> missed s" and "listening s = Some (auth_id u) \<or> deleted_events uid k (table s) = []"
    with inv show "consistent (auth_id u) (table_change s (db_delete uid k (table s)) (deleted_events uid k (table s)))"
      by (simp add: sys_inv_def table_wf_def consistent_delete)
  qed
qed

lemma inv_ext_delete: "sys_inv u s \<Longrightarrow> sys_inv u (sys_step s (ExtDelete uid k))"
  by (simp add: inv_delete)

lemma consistent_answers [simp]: "consistent uid (s\<lparr>answers := a\<rparr>) = consistent uid s"
  by (simp add: consistent_def)

lemma inv_answers_update:
  "sys_inv u s \<Longrightarrow> i < length (answers s) \<Longrightarrow> sys_inv u (s\<lparr>answers := (answers s)[i := x]\<rparr>)"
  by (simp add: sys_inv_def)

lemma inv_exec_call:
  assumes inv: "sys_inv u s" and ex: "exec_call s p rid now err = Some (tbl, evs)"
  shows "sys_inv u (table_change s tbl evs)"
proof (cases err)
  case (Some e)
  with ex have "tbl = table s" and "evs = []" by (cases p; simp)+
  with inv show ?thesis by (simp add: inv_no_change)
next
  case None
  show ?thesis
  proof (cases p)
    case (AwaitInsert uu t k)
    let ?row = "\<lparr>bm_id = rid, created_at = now, user_id = k, url = uu, title = t\<rparr>"
    from ex AwaitInsert None have fresh: "fresh_row (table s) ?row"
      and tbl: "tbl = db_insert (table s) ?row" and evs: "evs = [INSERT ?row]"
      by (auto simp: Let_def split: if_splits)
    have "sys_inv u (sys_step s (ExtInsert ?row))" by (rule inv_ext_insert [OF inv])
    with fresh tbl evs show ?thesis by simp
  next
    case (AwaitDelete k)
    with ex None have "tbl = db_delete (userId (view s)) k (table s)"
      and "evs = deleted_events (userId (view s)) k (table s)" by auto
    with inv show ?thesis by (simp add: inv_delete)
  qed
qed

lemma inv_db_exec:
  assumes inv: "sys_inv u s"
  shows "sys_inv u (sys_step s (DbExec i rid now err))"
proof (cases "i < length (answers s) \<and> answers s ! i = None \<and> i < length (in_flight (view s))")
  case False
  then have "db_exec s i rid now err = s" unfolding db_exec_def by (rule if_not_P)
  with inv show ?thesis by simp
next
  case g: True
  show ?thesis
  proof (cases "exec_call s (in_flight (view s) ! i) rid now err")
    case None
    with g inv show ?thesis by (simp add: db_exec_def)
  next
    case (Some r)
    obtain tbl evs where r: "r = (tbl, evs)" by fastforce
    have "sys_inv u (table_change s tbl evs)"
      using inv Some r by (simp add: inv_exec_call)
    then have "sys_inv u ((table_change s tbl evs)\<lparr>answers := (answers s)[i := Some err]\<rparr>)"
      by (simp add: sys_inv_def table_change_def)
    with g Some r show ?thesis by (simp add: db_exec_def)
  qed
qed

lemma user_event_not_machine: "user_event e \<Longrightarrow> (\<forall>ev. e \<noteq> Realtime ev) \<and> (\<forall>i r. e \<noteq> Settle i r)"
  by (cases e) auto

lemma inv_user_act:
  assumes inv: "sys_inv u s"
  shows "sys_inv u (sys_step s (UserAct e))"
proof (cases "user_event e")
  case False
  with inv show ?thesis by (simp add: user_act_def)
next
  case True
  let ?v = "fst (manager_step (view s) e)"
  from True have nr: "\<forall>ev. e \<noteq> Realtime ev" and ns: "\<forall>i r. e \<noteq> Settle i r"
    by (simp_all add: user_event_not_machine)
  have bm: "bookmarks ?v = bookmarks (view s)" using nr by (rule step_keeps_bookmarks)
  have len: "length (in_flight (view s)) \<le> length (in_flight ?v)"
    using nr ns by (rule user_step_in_flight_grows)
  have ch: "channel ?v \<in> {None, Some (userId (view s)), channel (view s)}" by (rule step_channel)
  from inv bm len ch True show ?thesis
    by (auto simp: user_act_def sys_inv_def consistent_def Let_def)
qed

lemma inv_reply:
  assumes inv: "sys_inv u s"
  shows "sys_inv u (sys_step s (Reply i))"
proof (cases "i < length (answers s)")
  case False
  with inv show ?thesis by (simp add: reply_def)
next
  case True
  show ?thesis
  proof (cases "answers s ! i")
    case None
    with True inv show ?thesis by (simp add: reply_def)
  next
    case (Some r)
    let ?v = "fst (manager_step (view s) (Settle i r))"
    have i: "i < length (in_flight (view s))" using True inv by (simp add: sys_inv_def)
    have fl: "in_flight ?v = remove_at i (in_flight (view s))" using i by (simp add: settle_in_flight)
    have fr: "bookmarks ?v = bookmarks (view s) \<and> channel ?v = channel (view s) \<and> userId ?v = userId (view s)"
      using settle_frame by simp
    from inv True Some fl fr i show ?thesis by (simp add: reply_def sys_inv_def consistent_def)
  qed
qed

lemma inv_deliver:
  assumes inv: "sys_inv u s"
  shows "sys_inv u (sys_step s Deliver)"
proof (cases "inbox s")
  case Nil
  with inv show ?thesis by (simp add: deliver_def)
next
  case (Cons ev rest)
  from inv Cons show ?thesis
    by (auto simp: deliver_def sys_inv_def consistent_def on_realtime_def split: option.splits)
qed

lemma inv_reload: "sys_inv u s \<Longrightarrow> sys_inv u (sys_step s (Reload ok))"
  by (simp add: sys_inv_def reload_def init_manager_def consistent_def snapshot_query_wf)

lemma inv_join_drop: "sys_inv u s \<Longrightarrow> sys_inv u (sys_step s Join) \<and> sys_inv u (sys_step s Drop)"
  by (simp add: sys_inv_def consistent_def)

lemma sys_step_inv: "sys_inv u s \<Longrightarrow> sys_inv u (sys_step s e)"
proof (cases e)
  case (UserAct x)
  then show "sys_inv u s \<Longrightarrow> ?thesis" using inv_user_act by simp
next
  case (DbExec i rid now err)
  then show "sys_inv u s \<Longrightarrow> ?thesis" using inv_db_exec by simp
next
  case (Reply i)
  then show "sys_inv u s \<Longrightarrow> ?thesis" using inv_reply by simp
next
  case Deliver
  then show "sys_inv u s \<Longrightarrow> ?thesis" using inv_deliver by simp
next
  case (ExtInsert row)
  then show "sys_inv u s \<Longrightarrow> ?thesis" using inv_ext_insert by simp
next
  case (ExtDelete uid k)
  then show "sys_inv u s \<Longrightarrow> ?thesis" using inv_ext_delete by simp
next
  case (Reload ok)
  then show "sys_inv u s \<Longrightarrow> ?thesis" using inv_reload by simp
next
  case Join
  then show "sys_inv u s \<Longrightarrow> ?thesis" using inv_join_drop by simp
next
  case Drop
  then show "sys_inv u s \<Longrightarrow> ?thesis" using inv_join_drop by simp
qed

lemma sys_inv_init: "table_wf tbl \<Longrightarrow> sys_inv u (sys_init u tbl ok)"
  by (simp add: sys_inv_def sys_init_def init_manager_def consistent_def snapshot_query_wf)

lemma sys_reach_inv: "sys_reach u s \<Longrightarrow> sys_inv u s"
proof (induction rule: sys_reach.induct)
  case (init tbl ok)
  then show ?case by (rule sys_inv_init)
next
  case (step s e)
  from step.IH show ?case by (rule sys_step_inv)
qed


lemma sys_run_Cons [simp]: "sys_run s (e # es) = sys_run (sys_step s e) es"
  by (simp add: sys_run_def)

lemma sys_run_Nil [simp]: "sys_run s [] = s"
  by (simp add: sys_run_def)

lemma sys_reach_run: "sys_reach u s \<Longrightarrow> sys_reach u (sys_run s es)"
  by (induction es arbitrary: s) (auto intro: sys_reach.step)

text \<open>With the channel open, delivering the whole queue applies it to the array.\<close>

lemma deliver_all:
  "channel (view s) \<noteq> None \<Longrightarrow>
   bookmarks (view (sys_run s (replicate (length (inbox s)) Deliver))) = apply_changes (bookmarks (view s)) (inbox s)
   \<and> table (sys_run s (replicate (length (inbox s)) Deliver)) = table s"
proof (induction "inbox s" arbitrary: s)
  case Nil
  then show ?case by simp
next
  case (Cons ev rest)
  let ?s' = "deliver s"
  have s': "inbox ?s' = rest" "channel (view ?s') = channel (view s)"
    "bookmarks (view ?s') = on_postgres_change (bookmarks (view s)) ev" "table ?s' = table s"
    using Cons.hyps(2) [symmetric] Cons.prems by (auto simp: deliver_def on_realtime_def split: option.splits)
  have "bookmarks (view (sys_run ?s' (replicate (length (inbox ?s')) Deliver))) = apply_changes (bookmarks (view ?s')) (inbox ?s')
      \<and> table (sys_run ?s' (replicate (length (inbox ?s')) Deliver)) = table ?s'"
    using Cons.hyps(1) [of ?s'] s' Cons.prems by simp
  with s' Cons.hyps(2) [symmetric] show ?case by simp
qed

lemma add_state_facts:
  "\<not> missed add_state \<and> channel (view add_state) = Some ''u1'' \<and> length (inbox add_state) = 1
   \<and> inbox (sys_run add_state [Deliver]) = [] \<and> \<not> missed (sys_run add_state [Deliver])"
  unfolding add_state_def add_run_def sys_init_def snapshot_query_def sample_user_def google_def by code_simp

lemma auth_id_sample_user: "auth_id sample_user = ''u1''"
  by (simp add: sample_user_def)

lemma add_state_reach: "sys_reach sample_user add_state"
  unfolding add_state_def by (rule sys_reach_run [OF sys_reach.init]) (simp add: table_wf_def)


text \<open>What the invariant gives in a reachable state: the table stays well formed,
  and the view with its queue applied is the user's rows while nothing was missed.\<close>

lemma reach_table_wf: "sys_reach u s \<Longrightarrow> table_wf (rls_select (auth_id u) (table s))"
  by (drule sys_reach_inv) (simp add: sys_inv_def table_wf_rls)

lemma reach_consistent:
  "sys_reach u s \<Longrightarrow> \<not> missed s \<Longrightarrow>
   apply_changes (bookmarks (view s)) (inbox s) = rls_select (auth_id u) (table s)"
  by (drule sys_reach_inv) (simp add: sys_inv_def consistent_def)

section \<open>Properties of the system\<close>

text \<open>
  C23. In every reachable state in which no change went unobserved, applying the
  changes queued for the channel to the component's array gives exactly the
  user's rows of the table, in the table's order: the view refines the table.
\<close>

theorem sys_reach_consistent:
  "sys_reach u s \<Longrightarrow> \<not> missed s \<Longrightarrow>
   apply_changes (bookmarks (view s)) (inbox s) = rls_select (auth_id u) (table s)"
  by (rule reach_consistent)

theorem sys_reach_consistent_witness:
  "apply_changes (bookmarks (view add_state)) (inbox add_state) = rls_select ''u1'' (table add_state)"
  using sys_reach_consistent [OF add_state_reach] add_state_facts by (simp add: sample_user_def)

text \<open>
  C24. With the channel open, delivering the queued changes brings the
  component's array to exactly the user's rows of the table: the view converges.
\<close>

theorem deliveries_converge:
  assumes "sys_reach u s" and "\<not> missed s" and "channel (view s) \<noteq> None"
  shows "bookmarks (view (sys_run s (replicate (length (inbox s)) Deliver))) = rls_select (auth_id u) (table s)"
proof -
  from reach_consistent [OF assms(1,2)] deliver_all [OF assms(3)] show ?thesis by simp
qed

theorem deliveries_converge_witness:
  "bookmarks (view (sys_run add_state [Deliver])) = rls_select ''u1'' (table add_state)"
  using deliveries_converge [OF add_state_reach] add_state_facts by (simp add: sample_user_def)


text \<open>
  C26. The channel loses changes silently: when the connection drops and the
  client library joins the channel again, a row of the user committed in between
  is never published.  The component's state is exactly as before, since the
  code passes no status callback to \<open>subscribe()\<close> and never reads the table
  again, and even after everything queued is delivered its list lacks the row.
\<close>

theorem silent_channel_loss:
  assumes "sys_reach u s" and "\<not> missed s" and "channel (view s) \<noteq> None"
    and "fresh_row (table s) row" and "user_id row = auth_id u"
  shows "let s' = sys_run s [Drop, ExtInsert row, Join]
         in listening s' = channel (view s) \<and> view s' = view s \<and> inbox s' = inbox s
            \<and> table s' = row # table s \<and> missed s'
            \<and> bookmarks (view (sys_run s' (replicate (length (inbox s')) Deliver)))
                \<noteq> rls_select (auth_id u) (table s')"
proof -
  let ?s' = "sys_run s [Drop, ExtInsert row, Join]"
  have s': "listening ?s' = channel (view s)" "view ?s' = view s" "inbox ?s' = inbox s"
    "table ?s' = row # table s" "missed ?s'"
    using assms(3,4) by (simp_all add: table_change_def listening_def db_insert_def)
  have "bookmarks (view (sys_run ?s' (replicate (length (inbox ?s')) Deliver)))
          = apply_changes (bookmarks (view s)) (inbox s)"
    using deliver_all [of ?s'] s' assms(3) by simp
  also have "\<dots> = rls_select (auth_id u) (table s)" by (rule reach_consistent [OF assms(1,2)])
  also have "\<dots> \<noteq> rls_select (auth_id u) (row # table s)"
    using assms(5) by (simp add: rls_select_def)
  finally show ?thesis using s' by (simp add: Let_def)
qed

theorem silent_channel_loss_witness:
  "let s' = sys_run add_state [Drop, ExtInsert yahoo, Join]
   in listening s' = Some ''u1'' \<and> view s' = view add_state \<and> inbox s' = inbox add_state
      \<and> table s' = yahoo # table add_state \<and> missed s'
      \<and> bookmarks (view (sys_run s' (replicate (length (inbox s')) Deliver)))
          \<noteq> rls_select ''u1'' (table s')"
proof -
  have h3: "channel (view add_state) \<noteq> None" and c: "channel (view add_state) = Some ''u1''"
    and h2: "\<not> missed add_state"
    using add_state_facts by simp_all
  have h4: "fresh_row (table add_state) yahoo"
    unfolding add_state_def add_run_def sys_init_def snapshot_query_def sample_user_def google_def yahoo_def fresh_row_def by code_simp
  have h5: "user_id yahoo = auth_id sample_user" by (simp add: yahoo_def sample_user_def)
  show ?thesis
    using silent_channel_loss [OF add_state_reach h2 h3 h4 h5] c by (simp add: auth_id_sample_user)
qed
text \<open>
  C32. A failed snapshot query goes unnoticed.  The dashboard mounts the
  component with \<open>bookmarks || []\<close>, so a user who has rows sees an empty
  list.  The mount only opens the channel: no alert and no second query.
  Nothing is queued to deliver, and the list differs from the user's rows of
  the table.
\<close>

theorem failed_snapshot_unnoticed:
  assumes "table_wf tbl" and "rls_select (auth_id u) tbl \<noteq> []"
  shows "let s0 = sys_init u tbl False; s = sys_run s0 [UserAct Mount, Join]
         in sys_reach u s \<and> snd (manager_step (view s0) Mount) = [Subscribe (auth_id u)]
            \<and> bookmarks (view s) = [] \<and> inbox s = [] \<and> answers s = [] \<and> missed s
            \<and> bookmarks (view s) \<noteq> rls_select (auth_id u) (table s)"
proof -
  have r: "sys_reach u (sys_run (sys_init u tbl False) [UserAct Mount, Join])"
    by (rule sys_reach_run [OF sys_reach.init [OF assms(1)]])
  with assms(2) show ?thesis
    by (simp add: sys_init_def snapshot_query_def initial_bookmarks_def init_manager_def user_act_def
        effect_setup_def Let_def)
qed

theorem failed_snapshot_unnoticed_witness:
  "let s0 = sys_init sample_user [google] False; s = sys_run s0 [UserAct Mount, Join]
   in sys_reach sample_user s \<and> snd (manager_step (view s0) Mount) = [Subscribe ''u1'']
      \<and> bookmarks (view s) = [] \<and> inbox s = [] \<and> answers s = [] \<and> missed s
      \<and> bookmarks (view s) \<noteq> rls_select ''u1'' (table s)"
proof -
  have h1: "table_wf [google]" by (simp add: table_wf_def)
  have h2: "rls_select (auth_id sample_user) [google] \<noteq> []"
    by (simp add: rls_select_def google_def sample_user_def)
  show ?thesis using failed_snapshot_unnoticed [OF h1 h2] by (simp add: auth_id_sample_user)
qed

text \<open>
  C10. The order in which the component receives a realtime change and the
  database's answer to one of its requests, or a keystroke or submit of the
  user, does not matter: delivering first and handling the other first reach
  the same state.  The race between an insert's answer and its own
  \<open>INSERT\<close> is harmless.
\<close>

theorem delivery_order_irrelevant:
  assumes "e = Reply i \<or> (\<exists>x. e = UserAct x \<and> delivery_independent x)"
  shows "sys_step (sys_step s e) Deliver = sys_step (sys_step s Deliver) e"
  using assms
proof
  assume e: "e = Reply i"
  show ?thesis
  proof (cases "inbox s")
    case Nil
    with e show ?thesis by (simp add: deliver_def reply_def split: option.splits)
  next
    case (Cons ev rest)
    have ch: "channel (fst (settle (view s) i r)) = channel (view s)" for r using settle_frame by simp
    with e Cons show ?thesis
      by (auto simp: deliver_def reply_def settle_on_realtime split: option.splits)
  qed
next
  assume "\<exists>x. e = UserAct x \<and> delivery_independent x"
  then obtain x where e: "e = UserAct x" and d: "delivery_independent x" by blast
  show ?thesis
  proof (cases "inbox s")
    case Nil
    with e show ?thesis by (simp add: deliver_def user_act_def Let_def split: option.splits)
  next
    case (Cons ev rest)
    have "channel (fst (manager_step (view s) x)) = channel (view s)"
      using d by (cases x) (simp_all add: submit_form_def handle_add_def settle_frame)
    then show ?thesis using e Cons d
      by (auto simp: deliver_def user_act_def Let_def step_on_realtime on_realtime_closed)
  qed
qed
theorem delivery_order_irrelevant_witness:
  "sys_step (sys_step (sys_run (sys_init sample_user [google] True) (butlast add_run)) (Reply 0)) Deliver
   = sys_step (sys_step (sys_run (sys_init sample_user [google] True) (butlast add_run)) Deliver) (Reply 0)"
proof -
  have h: "Reply 0 = Reply 0 \<or> (\<exists>x. Reply 0 = UserAct x \<and> delivery_independent x)" by simp
  show ?thesis
    by (rule delivery_order_irrelevant [where s = "sys_run (sys_init sample_user [google] True) (butlast add_run)", OF h])
qed

end
