(* ===== verification/Tabs.thy ===== *)
theory Tabs
  imports Sync
begin

text \<open>
  Several browser tabs of one signed-in user.  Each tab loaded the dashboard and
  mounted its own \<open>BookmarkManager\<close>, with its own snapshot, channel, queue of
  published changes and pending answers (a \<open>tab\<close>: the per-tab part of
  \<open>Sync.system\<close>); they share the table.  A tab's step is the one-session step
  \<open>sys_step\<close> on its view of the table.  What it commits reaches every other tab
  as a change by another session (\<open>remote_events\<close>): the database executing a
  tab's insert is, for the other tabs, an \<open>ExtInsert\<close> of the same row, and its
  delete an \<open>ExtDelete\<close> by the same user.  An external change (another device
  or user) reaches every tab.  Opening a tab runs the dashboard on the current
  table.
\<close>

section \<open>State and steps\<close>

record tab =
  tview :: manager_state
  tinbox :: "change_event list"
  tanswers :: "string option option list"
  tmissed :: bool
  tjoined :: bool

record tabs_state =
  shared_table :: "bookmark list"
  tabs :: "tab list"

definition session_of :: "bookmark list \<Rightarrow> tab \<Rightarrow> system" where
  "session_of tbl t =
     \<lparr>table = tbl, view = tview t, inbox = tinbox t, answers = tanswers t, missed = tmissed t,
      joined = tjoined t\<rparr>"

definition tab_of :: "system \<Rightarrow> tab" where
  "tab_of s = \<lparr>tview = view s, tinbox = inbox s, tanswers = answers s, tmissed = missed s,
     tjoined = joined s\<rparr>"

definition session :: "tabs_state \<Rightarrow> nat \<Rightarrow> system" where
  "session m i = session_of (shared_table m) (tabs m ! i)"

text \<open>
  The change a step of one session commits, as the other sessions see it: the
  database executing the session's \<open>i\<close>-th request without error (under the
  guard of \<open>db_exec\<close>), or an external change.
\<close>

fun remote_events :: "system \<Rightarrow> sys_event \<Rightarrow> sys_event list" where
  "remote_events s (DbExec i rid now err) =
     (if i < length (answers s) \<and> answers s ! i = None \<and> i < length (in_flight (view s)) \<and> err = None
      then (case in_flight (view s) ! i of
              AwaitInsert u t k \<Rightarrow> [ExtInsert \<lparr>bm_id = rid, created_at = now, user_id = k, url = u, title = t\<rparr>]
            | AwaitDelete k \<Rightarrow> [ExtDelete (userId (view s)) k])
      else [])"
| "remote_events s (ExtInsert row) = [ExtInsert row]"
| "remote_events s (ExtDelete uid k) = [ExtDelete uid k]"
| "remote_events s e = []"

datatype tabs_event = OpenTab bool | TabStep nat sys_event

fun tabs_step :: "auth_user \<Rightarrow> tabs_state \<Rightarrow> tabs_event \<Rightarrow> tabs_state" where
  "tabs_step u m (OpenTab ok) = m\<lparr>tabs := tabs m @ [tab_of (sys_init u (shared_table m) ok)]\<rparr>"
| "tabs_step u m (TabStep i e) =
     (if i < length (tabs m) then
        (let s = session m i; s' = sys_step s e
         in \<lparr>shared_table = table s',
             tabs = (map (\<lambda>t. tab_of (sys_run (session_of (shared_table m) t) (remote_events s e))) (tabs m))
                      [i := tab_of s']\<rparr>)
      else m)"

definition tabs_run :: "auth_user \<Rightarrow> tabs_state \<Rightarrow> tabs_event list \<Rightarrow> tabs_state" where
  "tabs_run u m es = foldl (tabs_step u) m es"

inductive tabs_reach :: "auth_user \<Rightarrow> tabs_state \<Rightarrow> bool" for u where
  init: "table_wf tbl \<Longrightarrow> tabs_reach u \<lparr>shared_table = tbl, tabs = []\<rparr>"
| step: "tabs_reach u m \<Longrightarrow> tabs_reach u (tabs_step u m e)"

definition tabs_inv :: "auth_user \<Rightarrow> tabs_state \<Rightarrow> bool" where
  "tabs_inv u m = (table_wf (shared_table m) \<and> list_all (\<lambda>t. sys_reach u (session_of (shared_table m) t)) (tabs m))"

section \<open>Lemmas\<close>

lemma session_of_tab_of [simp]: "session_of (table s) (tab_of s) = s"
  by (simp add: session_of_def tab_of_def)

lemma table_session_of [simp]: "table (session_of tbl t) = tbl"
  by (simp add: session_of_def)

lemma table_user_act [simp]: "table (user_act s e) = table s"
  by (simp add: user_act_def Let_def)

lemma table_reply [simp]: "table (reply s i) = table s"
  by (simp add: reply_def split: option.splits)

lemma table_deliver [simp]: "table (deliver s) = table s"
  by (simp add: deliver_def split: list.splits)

lemma table_reload [simp]: "table (reload s ok) = table s"
  by (simp add: reload_def)

lemma table_table_change [simp]: "table (table_change s tbl evs) = tbl"
  by (simp add: table_change_def)

text \<open>A session that shares the table sees the same new table as the session that stepped.\<close>

lemma table_remote:
  assumes "table s1 = table s"
  shows "table (sys_run s1 (remote_events s e)) = table (sys_step s e)"
proof (cases e)
  case (DbExec i rid now err)
  then show ?thesis
    using assms
    by (cases "in_flight (view s) ! i"; cases err)
       (auto simp: db_exec_def Let_def split: option.splits)
qed (use assms in simp_all)

lemma session_tabs_step:
  assumes "i < length (tabs m)" and "j < length (tabs m)"
  shows "session (tabs_step u m (TabStep i e)) j =
           (if j = i then sys_step (session m i) e else sys_run (session m j) (remote_events (session m i) e))"
proof (cases "j = i")
  case True
  with assms show ?thesis by (simp add: session_def Let_def)
next
  case False
  have "table (sys_step (session m i) e) = table (sys_run (session m j) (remote_events (session m i) e))"
    by (rule table_remote [symmetric]) (simp add: session_def)
  with False assms show ?thesis by (simp add: session_def Let_def)
qed

lemma session_of_tab_of_eq: "table s = tbl \<Longrightarrow> session_of tbl (tab_of s) = s"
  by (simp add: session_of_def tab_of_def)

lemma tabs_inv_iff:
  "tabs_inv u m \<longleftrightarrow> table_wf (shared_table m) \<and> (\<forall>j < length (tabs m). sys_reach u (session m j))"
  by (simp add: tabs_inv_def session_def list_all_length)

lemma table_session [simp]: "table (session m i) = shared_table m"
  by (simp add: session_def)

lemma tabs_step_inv: "tabs_inv u m \<Longrightarrow> tabs_inv u (tabs_step u m e)"
proof (cases e)
  case (OpenTab ok)
  assume inv: "tabs_inv u m"
  then have "sys_reach u (sys_init u (shared_table m) ok)"
    by (simp add: tabs_inv_def sys_reach.init)
  moreover have "session_of (shared_table m) (tab_of (sys_init u (shared_table m) ok)) = sys_init u (shared_table m) ok"
    by (rule session_of_tab_of_eq) (simp add: sys_init_def)
  ultimately show ?thesis using inv OpenTab by (simp add: tabs_inv_def)
next
  case (TabStep i e')
  assume inv: "tabs_inv u m"
  show ?thesis
  proof (cases "i < length (tabs m)")
    case False
    with inv TabStep show ?thesis by simp
  next
    case True
    let ?m' = "tabs_step u m (TabStep i e')"
    from inv True have ri: "sys_reach u (session m i)" by (simp add: tabs_inv_iff)
    then have "sys_reach u (sys_step (session m i) e')" by (rule sys_reach.step)
    then have "table_wf (shared_table ?m')"
      using True by (auto dest: sys_reach_inv simp: sys_inv_def Let_def session_def)
    moreover have "sys_reach u (session ?m' j)" if j: "j < length (tabs ?m')" for j
    proof -
      from j True have j': "j < length (tabs m)" by (simp add: Let_def)
      have eq: "session ?m' j = (if j = i then sys_step (session m i) e'
                                  else sys_run (session m j) (remote_events (session m i) e'))"
        by (rule session_tabs_step [OF True j'])
      from inv j' have "sys_reach u (session m j)" by (simp add: tabs_inv_iff)
      then have "sys_reach u (sys_run (session m j) (remote_events (session m i) e'))" by (rule sys_reach_run)
      with \<open>sys_reach u (sys_step (session m i) e')\<close> show ?thesis unfolding eq by simp
    qed
    ultimately show ?thesis using TabStep by (simp add: tabs_inv_iff)
  qed
qed

lemma tabs_reach_inv: "tabs_reach u m \<Longrightarrow> tabs_inv u m"
proof (induction rule: tabs_reach.induct)
  case (init tbl)
  then show ?case by (simp add: tabs_inv_def)
next
  case (step m e)
  from step.IH show ?case by (rule tabs_step_inv)
qed

lemma tabs_reach_run: "tabs_reach u m \<Longrightarrow> tabs_reach u (tabs_run u m es)"
  by (induction es arbitrary: m) (auto simp: tabs_run_def intro: tabs_reach.step)

text \<open>In a reachable state, a tab with its channel open that missed nothing shows,
  once its queue is delivered, the user's rows of the shared table.\<close>

lemma tab_delivered:
  assumes "tabs_reach u m" and "i < length (tabs m)" and "\<not> missed (session m i)"
    and "channel (view (session m i)) \<noteq> None"
  shows "bookmarks (view (sys_run (session m i) (replicate (length (inbox (session m i))) Deliver)))
         = rls_select (auth_id u) (shared_table m)"
proof -
  from tabs_reach_inv [OF assms(1)] assms(2) have "sys_reach u (session m i)"
    by (simp add: tabs_inv_iff)
  from reach_consistent [OF this assms(3)]
  have "apply_changes (bookmarks (view (session m i))) (inbox (session m i))
          = rls_select (auth_id u) (shared_table m)" by simp
  with deliver_all [OF assms(4)] show ?thesis by simp
qed

end
