(* ===== verification/Render.thy ===== *)
theory Render
  imports Routing
begin

text \<open>
  The markup the four components return, as a tree.  A JSX element is a node:
  a host element with its tag and children, a text child, a \<open>lucide-react\<close>
  icon, a \<open>next/link\<close> link, an anchor, an input, a button, a form, a keyed
  list child, and the two components the pages mount.  Attributes that only
  style (\<open>className\<close>, \<open>size\<close>) are not modelled; attributes that act are: a
  link's \<open>href\<close>, an anchor's \<open>target\<close> and \<open>rel\<close>, an input's \<open>type\<close>,
  \<open>placeholder\<close>, \<open>value\<close>, \<open>required\<close> and \<open>onChange\<close>, a button's
  \<open>type\<close>, \<open>disabled\<close> and \<open>onClick\<close>, a form's \<open>onSubmit\<close> or server
  \<open>action\<close>, and a list child's \<open>key\<close>.  Handlers are the component's inputs
  (\<open>ui_event\<close>); an \<open>onChange\<close> maps the typed value to one.
\<close>

section \<open>Markup\<close>

datatype node =
    El string "node list"
  | Txt string
  | Icon string
  | NextLink string "node list"
  | Anchor string "(string \<times> string) list" "node list"
  | Input string string string bool "string \<Rightarrow> ui_event"
  | Button "string option" bool "ui_event option" "node list"
  | Form ui_event "node list"
  | ActionForm string "node list"
  | Keyed string node
  | AuthButtonEl
  | ManagerEl "bookmark list" user_key

section \<open>The landing page\<close>

text \<open>\<open>FeatureCard\<close> (\<open>src/app/page.tsx\<close>, lines 95--113).\<close>

definition feature_card :: "node \<Rightarrow> string \<Rightarrow> string \<Rightarrow> node" where
  "feature_card icon heading description =
     El ''div'' [El ''div'' [icon], El ''h3'' [Txt heading], El ''p'' [Txt description]]"

text \<open>
  What \<open>Home\<close> returns to a signed-out visitor (lines 16--92).  JSX joins the
  lines of a text child with one space; the footer's sign is the character
  U+00A9.
\<close>

definition landing_view :: node where
  "landing_view =
     El ''div''
      [El ''nav''
        [El ''div'' [El ''div'' [Icon ''Bookmark''], El ''span'' [Txt ''MarkIt'']],
         NextLink ''/login'' [Txt ''Sign In'']],
       El ''main''
        [El ''div''
          [El ''div'' [El ''span'' [El ''span'' [], El ''span'' []], Txt ''Real-time Bookmark Manager''],
           El ''h1'' [Txt ''Save everything.'', El ''br'' [], Txt ''Organize better.''],
           El ''p'' [Txt (''A premium bookmark manager built with Next.js and Supabase. Sync''
                          @ '' across tabs in real-time and keep your links secure and private.'')],
           El ''div''
            [NextLink ''/login'' [Txt ''Get Started for Free''],
             Anchor ''https://github.com'' [] [Icon ''Github'', Txt ''View Source'']]],
         El ''div''
          [feature_card (Icon ''Chrome'') ''Access Anywhere''
             ''Manage your bookmarks from any browser or device with ease.'',
           feature_card (Icon ''Globe'') ''Real-time Sync''
             ''Add a bookmark in one tab, see it immediately in all others.'',
           feature_card (Icon ''Shield'') ''Privacy First''
             ''Your bookmarks are encrypted and only accessible by you.'']],
       El ''footer'' [El ''p'' [Txt (char_of (169::nat) # '' 2024 MarkIt. Built with passion and Next.js.'')]]]"

section \<open>The login page\<close>

text \<open>What \<open>LoginPage\<close> returns to a signed-out visitor (\<open>src/app/login/page.tsx\<close>, lines 16--50).\<close>

definition login_view :: node where
  "login_view =
     El ''div''
      [El ''div''
        [El ''div''
          [El ''div'' [Icon ''Bookmark''],
           El ''h2'' [Txt ''Welcome back''],
           El ''p'' [Txt ''Please sign in with your Google account to continue.'']],
         El ''div''
          [AuthButtonEl,
           El ''div'' [El ''div'' [El ''span'' []], El ''div'' [El ''span'' [Txt ''Secure Authentication'']]],
           El ''p'' [Txt (''By signing in, you agree to our Terms of Service and Privacy Policy.''
                          @ '' We only request access to your basic profile information.'')]]]]"

section \<open>The dashboard page\<close>

text \<open>
  What \<open>DashboardPage\<close> returns to a signed-in user (\<open>src/app/dashboard/page.tsx\<close>,
  lines 29--69): the header with the e-mail and the log-out form whose action is
  \<open>handleSignOut\<close> (its button has no \<open>type\<close>, so it submits), and the
  \<open>BookmarkManager\<close> with its two props.
\<close>

definition dashboard_view :: "string \<Rightarrow> bookmark list \<Rightarrow> user_key \<Rightarrow> node" where
  "dashboard_view mail initialBookmarks uid =
     El ''div''
      [El ''header''
        [El ''div''
          [El ''div'' [El ''div'' [Icon ''Bookmark''], El ''span'' [Txt ''MarkIt'']],
           El ''div''
            [El ''div'' [Icon ''User'', El ''span'' [Txt mail]],
             ActionForm ''handleSignOut''
              [Button None False None [Icon ''LogOut'', El ''span'' [Txt ''Log out'']]]]]],
       El ''main''
        [El ''div''
          [El ''h1'' [Txt ''Your Bookmarks''],
           El ''p'' [Txt ''Manage and organize your saved links in real-time.'']],
         ManagerEl initialBookmarks uid]]"

text \<open>The router renders the element a page returns; a redirect renders nothing.\<close>

fun page_view :: "page_result \<Rightarrow> node option" where
  "page_view (Redirect p) = None"
| "page_view RenderLanding = Some landing_view"
| "page_view RenderLogin = Some login_view"
| "page_view (RenderDashboard mail bs uid) = Some (dashboard_view mail bs uid)"

section \<open>The component\<close>

text \<open>
  One row of the list (\<open>bookmark-manager.tsx\<close>, lines 156--192), keyed by the
  row's id: title and URL as text, a link that opens the URL in a new tab, and
  a delete button (no \<open>type\<close>, outside the form) whose click is
  \<open>handleDelete(bookmark.id)\<close>.
\<close>

definition bookmark_card :: "bookmark \<Rightarrow> node" where
  "bookmark_card b =
     Keyed (bm_id b)
      (El ''div''
        [El ''div''
          [El ''div'' [Icon ''Globe''],
           El ''div'' [El ''h3'' [Txt (title b)], El ''p'' [Txt (url b)]]],
         El ''div''
          [Anchor (url b) [(''target'', ''_blank''), (''rel'', ''noopener noreferrer'')] [Icon ''ExternalLink''],
           Button None False (Some (ClickDelete (bm_id b))) [Icon ''Trash2'']]])"

definition empty_state :: node where
  "empty_state = El ''div'' [Icon ''Globe'', El ''p'' [Txt ''No bookmarks found. Start by adding one!'']]"

text \<open>
  The component's render (lines 90--197) from its state: the add form, whose
  submit is \<open>handleAdd\<close> and whose button is disabled and relabelled while
  \<open>loading\<close>; the search box; and \<open>filteredBookmarks\<close> as cards, or the
  empty state when there is none.
\<close>

definition manager_view :: "manager_state \<Rightarrow> node" where
  "manager_view s =
     El ''div''
      [Form SubmitForm
        [El ''div'' [Icon ''Plus'', El ''h2'' [Txt ''Add New Bookmark'']],
         El ''div''
          [Input ''text'' ''Title (e.g. Google)'' (title_field s) True TitleChange,
           Input ''url'' ''URL (https://...)'' (url_field s) True UrlChange],
         Button (Some ''submit'') (loading s) None
           [Txt (if loading s then ''Adding...'' else ''Add Bookmark'')]],
       El ''div''
        [Icon ''Search'', Input ''text'' ''Search your bookmarks...'' (filter_field s) False FilterChange],
       El ''div''
        (if visible_bookmarks s = [] then [empty_state] else map bookmark_card (visible_bookmarks s))]"

section \<open>Reading the markup\<close>

text \<open>
  \<open>collect f\<close> gathers \<open>f\<close> of every node of a tree in document order; the
  readers below are the enabled click handlers, the inputs (placeholder, value,
  \<open>onChange\<close>), the links' targets, the mounted \<open>BookmarkManager\<close>s, and the
  keys of each list of siblings.
\<close>

fun children :: "node \<Rightarrow> node list" where
  "children (El t cs) = cs"
| "children (NextLink h cs) = cs"
| "children (Anchor h a cs) = cs"
| "children (Button ty d e cs) = cs"
| "children (Form e cs) = cs"
| "children (ActionForm a cs) = cs"
| "children (Keyed k c) = [c]"
| "children n = []"

fun collect :: "(node \<Rightarrow> 'a list) \<Rightarrow> node \<Rightarrow> 'a list" where
  "collect f (El t cs) = f (El t cs) @ concat (map (collect f) cs)"
| "collect f (NextLink h cs) = f (NextLink h cs) @ concat (map (collect f) cs)"
| "collect f (Anchor h a cs) = f (Anchor h a cs) @ concat (map (collect f) cs)"
| "collect f (Button ty d e cs) = f (Button ty d e cs) @ concat (map (collect f) cs)"
| "collect f (Form e cs) = f (Form e cs) @ concat (map (collect f) cs)"
| "collect f (ActionForm a cs) = f (ActionForm a cs) @ concat (map (collect f) cs)"
| "collect f (Keyed k c) = f (Keyed k c) @ collect f c"
| "collect f (Txt s) = f (Txt s)"
| "collect f (Icon i) = f (Icon i)"
| "collect f (Input ty ph v req h) = f (Input ty ph v req h)"
| "collect f AuthButtonEl = f AuthButtonEl"
| "collect f (ManagerEl bs uid) = f (ManagerEl bs uid)"

fun click_of :: "node \<Rightarrow> ui_event list" where
  "click_of (Button ty False (Some e) cs) = [e]"
| "click_of n = []"

fun input_of :: "node \<Rightarrow> (string \<times> string \<times> (string \<Rightarrow> ui_event)) list" where
  "input_of (Input ty ph v req h) = [(ph, v, h)]"
| "input_of n = []"

fun link_of :: "node \<Rightarrow> string list" where
  "link_of (NextLink h cs) = [h]"
| "link_of n = []"

fun manager_of :: "node \<Rightarrow> (bookmark list \<times> user_key) list" where
  "manager_of (ManagerEl bs uid) = [(bs, uid)]"
| "manager_of n = []"

fun key_of :: "node \<Rightarrow> string list" where
  "key_of (Keyed k c) = [k]"
| "key_of n = []"

definition sibling_keys :: "node \<Rightarrow> string list list" where
  "sibling_keys n = [concat (map key_of (children n))]"

definition clicks :: "node \<Rightarrow> ui_event list" where
  "clicks n = collect click_of n"

definition inputs :: "node \<Rightarrow> (string \<times> string \<times> (string \<Rightarrow> ui_event)) list" where
  "inputs n = collect input_of n"

definition input_value :: "string \<Rightarrow> node \<Rightarrow> string option" where
  "input_value ph n = map_of (map (\<lambda>(p, v, h). (p, v)) (inputs n)) ph"

definition links :: "node \<Rightarrow> string list" where
  "links n = collect link_of n"

definition managers :: "node \<Rightarrow> (bookmark list \<times> user_key) list" where
  "managers n = collect manager_of n"

text \<open>React's rule for lists: the keys of the children of one node are distinct.\<close>

definition keys_ok :: "node \<Rightarrow> bool" where
  "keys_ok n = list_all distinct (collect sibling_keys n)"

section \<open>Lemmas\<close>

lemma card_clicks [simp]: "collect click_of \<circ> bookmark_card = (\<lambda>b. [ClickDelete (bm_id b)])"
  by (simp add: bookmark_card_def fun_eq_iff)

lemma card_inputs [simp]:
  "collect input_of (bookmark_card b) = []" "collect input_of \<circ> bookmark_card = (\<lambda>b. [])"
  by (simp_all add: bookmark_card_def fun_eq_iff)

lemma card_keys [simp]: "set (collect sibling_keys (bookmark_card b)) = {[]}"
  by (simp add: bookmark_card_def sibling_keys_def)

lemma cards_key_of [simp]: "key_of \<circ> bookmark_card = (\<lambda>b. [bm_id b])"
  by (simp add: bookmark_card_def fun_eq_iff)

lemma empty_state_reads [simp]:
  "collect click_of empty_state = []" "collect input_of empty_state = []"
  "key_of empty_state = []" "set (collect sibling_keys empty_state) = {[]}"
  by (simp_all add: empty_state_def sibling_keys_def)

lemma manager_view_clicks:
  "clicks (manager_view s) = map (\<lambda>b. ClickDelete (bm_id b)) (visible_bookmarks s)"
  by (simp add: clicks_def manager_view_def concat_map_singleton)

lemma manager_view_inputs:
  "inputs (manager_view s) =
     [(''Title (e.g. Google)'', title_field s, TitleChange), (''URL (https://...)'', url_field s, UrlChange),
      (''Search your bookmarks...'', filter_field s, FilterChange)]"
  by (simp add: inputs_def manager_view_def)

lemma filtered_bookmarks_Nil_filter [simp]: "filtered_bookmarks bs [] = bs"
  by (simp add: filtered_bookmarks_def matches_filter_def)

section \<open>Properties of the markup\<close>

text \<open>
  C29. The rendered markup is well formed for React's lists exactly when the
  shown rows have distinct ids: the list's children are keyed by
  \<open>bookmark.id\<close> and no other list is keyed.
\<close>

theorem manager_view_keys_ok:
  "keys_ok (manager_view s) \<longleftrightarrow> distinct (map bm_id (visible_bookmarks s))"
  by (simp add: keys_ok_def manager_view_def sibling_keys_def list_all_iff)

text \<open>
  C30. The three inputs are controlled: after typing \<open>w\<close> into one, the next
  render shows \<open>w\<close> in it, and the value an input shows, sent back through its
  \<open>onChange\<close>, changes nothing.
\<close>

theorem controlled_inputs_roundtrip:
  assumes "(ph, v, h) \<in> set (inputs (manager_view s))"
  shows "input_value ph (manager_view (fst (manager_step s (h w)))) = Some w \<and> manager_step s (h v) = (s, [])"
proof -
  from assms have "(ph, v, h) \<in> {(''Title (e.g. Google)'', title_field s, TitleChange),
      (''URL (https://...)'', url_field s, UrlChange), (''Search your bookmarks...'', filter_field s, FilterChange)}"
    by (simp add: manager_view_inputs)
  then show ?thesis by (elim insertE emptyE) (simp_all add: manager_view_inputs input_value_def)
qed

theorem controlled_inputs_roundtrip_witness:
  "input_value ''URL (https://...)'' (manager_view (fst (manager_step sample_form (UrlChange ''https://duckduckgo.com''))))
     = Some ''https://duckduckgo.com''
   \<and> manager_step sample_form (UrlChange ''https://bing.com'') = (sample_form, [])"
proof -
  have h: "(''URL (https://...)'', ''https://bing.com'', UrlChange) \<in> set (inputs (manager_view sample_form))"
    by (simp add: manager_view_inputs sample_form_def)
  show ?thesis using controlled_inputs_roundtrip [OF h, of "''https://duckduckgo.com''"] by simp
qed
text \<open>
  C31. Wherever the browser ends up, it renders markup whose links all lead to
  a route of the app; a signed-out visitor gets no \<open>BookmarkManager\<close>, and a
  signed-in user gets exactly one, whose first render offers a delete for every
  row of the snapshot.
\<close>

theorem rendered_pages:
  "\<exists>v. page_view (destination r user data) = Some v
       \<and> list_all (\<lambda>h. parse_route h \<noteq> None) (links v)
       \<and> map (\<lambda>(bs, uid). clicks (manager_view (init_manager bs uid))) (managers v)
         = (case user of None \<Rightarrow> [] | Some u \<Rightarrow> [map (\<lambda>b. ClickDelete (bm_id b)) (initial_bookmarks data)])"
  by (cases user)
     (simp_all add: destination_def landing_view_def login_view_def dashboard_view_def feature_card_def
        links_def managers_def manager_view_clicks visible_bookmarks_def init_manager_def)
end
