(* ===== verification/Redelivery.thy ===== *)
theory Redelivery
  imports Sync Render
begin

text \<open>
  An at-least-once realtime transport, the case the specification raises for its
  \<open>Created\<close> rule (section 4): besides every step of \<open>Sync\<close>, the transport may
  hand the component the change at the head of its queue once more
  (\<open>redeliver\<close>).  The specification's merge keeps a dictionary by id, on
  which a repeated change is harmless; the component keeps an array and its
  insert branch prepends without looking (\<open>Bookmark.on_postgres_change\<close>).
  The theory shows both sides: the dictionary the array denotes still tracks
  the table in every reachable state, while the array itself, and so the
  rendered list, can hold a row twice.
\<close>

section \<open>Steps\<close>

definition redeliver :: "system \<Rightarrow> system" where
  "redeliver s = (case inbox s of [] \<Rightarrow> s | ev # rest \<Rightarrow> s\<lparr>inbox := ev # inbox s\<rparr>)"

datatype alo_event = Exactly sys_event | Redeliver

fun alo_step :: "system \<Rightarrow> alo_event \<Rightarrow> system" where
  "alo_step s (Exactly e) = sys_step s e"
| "alo_step s Redeliver = redeliver s"

definition alo_run :: "system \<Rightarrow> alo_event list \<Rightarrow> system" where
  "alo_run s es = foldl alo_step s es"

inductive alo_reach :: "auth_user \<Rightarrow> system \<Rightarrow> bool" for u where
  init: "table_wf tbl \<Longrightarrow> alo_reach u (sys_init u tbl ok)"
| step: "alo_reach u s \<Longrightarrow> alo_reach u (alo_step s e)"

text \<open>
  The invariant of \<open>Sync.sys_inv\<close> with consistency weakened to the
  dictionary: applying the queue to the array denotes the user's rows of the
  table, by id.
\<close>

definition index_consistent :: "user_key \<Rightarrow> system \<Rightarrow> bool" where
  "index_consistent uid s =
     (bookmark_index (apply_changes (bookmarks (view s)) (inbox s)) = bookmark_index (rls_select uid (table s)))"

definition alo_inv :: "auth_user \<Rightarrow> system \<Rightarrow> bool" where
  "alo_inv u s =
     (table_wf (table s) \<and> userId (view s) = auth_id u
      \<and> channel (view s) \<in> {None, Some (auth_id u)}
      \<and> length (answers s) = length (in_flight (view s))
      \<and> (\<not> missed s \<longrightarrow> index_consistent (auth_id u) s))"

text \<open>
  The scenario: the user's Bing is inserted while the channel is open, and the
  transport hands its \<open>INSERT\<close> to the component twice.
\<close>

definition alo_run_sample :: "alo_event list" where
  "alo_run_sample =
     [Exactly (UserAct Mount), Exactly Join, Exactly (ExtInsert bing), Redeliver,
      Exactly Deliver, Exactly Deliver]"

section \<open>Lemmas\<close>

text \<open>The dictionary an array denotes after a change depends only on the dictionary before.\<close>

lemma index_on_change_cong:
  "bookmark_index xs = bookmark_index ys \<Longrightarrow>
   bookmark_index (on_postgres_change xs e) = bookmark_index (on_postgres_change ys e)"
  by (cases e) simp_all

lemma index_apply_cong:
  "bookmark_index xs = bookmark_index ys \<Longrightarrow>
   bookmark_index (apply_changes xs evs) = bookmark_index (apply_changes ys evs)"
proof (induction evs arbitrary: xs ys)
  case Nil
  then show ?case by simp
next
  case (Cons e evs)
  from Cons.IH [OF index_on_change_cong [OF Cons.prems]] show ?case by simp
qed

lemma index_on_change_twice:
  "bookmark_index (on_postgres_change (on_postgres_change xs e) e) = bookmark_index (on_postgres_change xs e)"
  by (cases e) (simp_all add: fun_upd_twist)

lemma publish_append: "publish ch evs xs = xs @ publish ch evs []"
  by (cases ch) (simp_all add: publish_def)

text \<open>
  A committed change keeps the dictionary consistent whenever it would keep the
  list consistent starting from the table's own rows: \<open>restart s\<close> is the
  session with the user's rows as its array and nothing queued.
\<close>

definition restart :: "user_key \<Rightarrow> system \<Rightarrow> system" where
  "restart uid s = s\<lparr>view := (view s)\<lparr>bookmarks := rls_select uid (table s)\<rparr>, inbox := []\<rparr>"

lemma restart_consistent [simp]: "consistent uid (restart uid s)"
  by (simp add: restart_def consistent_def)

lemma restart_simps [simp]:
  "table (restart uid s) = table s" "listening (restart uid s) = listening s"
  "userId (view (restart uid s)) = userId (view s)" "inbox (restart uid s) = []"
  "bookmarks (view (restart uid s)) = rls_select uid (table s)"
  by (simp_all add: restart_def listening_def)

lemma index_table_change:
  assumes ic: "index_consistent uid s"
    and c0: "consistent uid (table_change (restart uid s) tbl evs)"
  shows "index_consistent uid (table_change s tbl evs)"
proof -
  let ?P = "publish (listening s) evs []"
  from c0 have l: "apply_changes (rls_select uid (table s)) ?P = rls_select uid tbl"
    by (simp add: consistent_def table_change_def)
  have "bookmark_index (apply_changes (apply_changes (bookmarks (view s)) (inbox s)) ?P)
          = bookmark_index (apply_changes (rls_select uid (table s)) ?P)"
    using ic by (intro index_apply_cong) (simp add: index_consistent_def)
  with l show ?thesis
    by (simp add: index_consistent_def table_change_def publish_append [of _ _ "inbox s"] apply_changes_append)
qed

lemma alo_inv_table_change:
  assumes inv: "alo_inv u s" and wf: "table_wf tbl"
    and cons: "\<not> missed s \<Longrightarrow> listening s = Some (auth_id u) \<or> evs = [] \<Longrightarrow>
               consistent (auth_id u) (table_change (restart (auth_id u) s) tbl evs)"
  shows "alo_inv u (table_change s tbl evs)"
proof -
  have "\<not> missed (table_change s tbl evs) \<Longrightarrow> index_consistent (auth_id u) (table_change s tbl evs)"
  proof -
    assume nm: "\<not> missed (table_change s tbl evs)"
    then have "\<not> missed s" and "listening s = Some (auth_id u) \<or> evs = [] \<or> listening s \<noteq> None"
      by (auto simp: table_change_def)
    moreover from inv have "listening s \<in> {None, Some (auth_id u)}"
      by (auto simp: alo_inv_def listening_def)
    moreover from nm have "listening s = None \<longrightarrow> evs = []" by (auto simp: table_change_def)
    ultimately have "listening s = Some (auth_id u) \<or> evs = []" by auto
    with \<open>\<not> missed s\<close> cons have "consistent (auth_id u) (table_change (restart (auth_id u) s) tbl evs)" by blast
    moreover from inv \<open>\<not> missed s\<close> have "index_consistent (auth_id u) s" by (simp add: alo_inv_def)
    ultimately show ?thesis by (intro index_table_change)
  qed
  with inv wf show ?thesis by (auto simp: alo_inv_def table_change_def)
qed

lemma alo_inv_insert:
  assumes inv: "alo_inv u s" and fresh: "fresh_row (table s) row"
  shows "alo_inv u (table_change s (db_insert (table s) row) [INSERT row])"
proof (rule alo_inv_table_change [OF inv])
  show "table_wf (db_insert (table s) row)" using inv fresh by (simp add: alo_inv_def table_wf_insert)
next
  assume "listening s = Some (auth_id u) \<or> [INSERT row] = []"
  then have "listening (restart (auth_id u) s) = Some (auth_id u)" by simp
  from consistent_insert [OF restart_consistent this]
  show "consistent (auth_id u) (table_change (restart (auth_id u) s) (db_insert (table s) row) [INSERT row])"
    by simp
qed

lemma alo_inv_delete:
  assumes inv: "alo_inv u s"
  shows "alo_inv u (table_change s (db_delete uid k (table s)) (deleted_events uid k (table s)))"
proof (rule alo_inv_table_change [OF inv])
  show "table_wf (db_delete uid k (table s))" using inv by (simp add: alo_inv_def table_wf_delete)
next
  assume "listening s = Some (auth_id u) \<or> deleted_events uid k (table s) = []"
  then have "listening (restart (auth_id u) s) = Some (auth_id u) \<or> deleted_events uid k (table (restart (auth_id u) s)) = []"
    by simp
  moreover have "distinct (map bm_id (table (restart (auth_id u) s)))"
    using inv by (simp add: alo_inv_def table_wf_def)
  ultimately have "consistent (auth_id u) (table_change (restart (auth_id u) s)
      (db_delete uid k (table (restart (auth_id u) s))) (deleted_events uid k (table (restart (auth_id u) s))))"
    by (intro consistent_delete restart_consistent)
  then show "consistent (auth_id u) (table_change (restart (auth_id u) s) (db_delete uid k (table s)) (deleted_events uid k (table s)))"
    by simp
qed

lemma alo_inv_no_change: "alo_inv u s \<Longrightarrow> alo_inv u (table_change s (table s) [])"
  by (rule alo_inv_table_change) (simp_all add: alo_inv_def consistent_def table_change_def restart_def)

lemma alo_inv_exec_call:
  assumes inv: "alo_inv u s" and ex: "exec_call s p rid now err = Some (tbl, evs)"
  shows "alo_inv u (table_change s tbl evs)"
proof (cases err)
  case (Some e)
  with ex have "tbl = table s" and "evs = []" by (cases p; simp)+
  with inv show ?thesis by (simp add: alo_inv_no_change)
next
  case None
  show ?thesis
  proof (cases p)
    case (AwaitInsert uu t k)
    with ex None show ?thesis by (auto simp: Let_def split: if_splits intro: alo_inv_insert [OF inv])
  next
    case (AwaitDelete k)
    with ex None inv show ?thesis by (auto simp: alo_inv_delete)
  qed
qed

lemma alo_inv_db_exec:
  assumes inv: "alo_inv u s"
  shows "alo_inv u (db_exec s i rid now err)"
proof (cases "i < length (answers s) \<and> answers s ! i = None \<and> i < length (in_flight (view s))")
  case False
  then have "db_exec s i rid now err = s" unfolding db_exec_def by (rule if_not_P)
  with inv show ?thesis by simp
next
  case g: True
  show ?thesis
  proof (cases "exec_call s (in_flight (view s) ! i) rid now err")
    case None
    with g inv show ?thesis by (simp add: db_exec_def)
  next
    case (Some r)
    obtain tbl evs where r: "r = (tbl, evs)" by fastforce
    have "alo_inv u (table_change s tbl evs)" using inv Some r by (simp add: alo_inv_exec_call)
    then have "alo_inv u ((table_change s tbl evs)\<lparr>answers := (answers s)[i := Some err]\<rparr>)"
      by (simp add: alo_inv_def table_change_def index_consistent_def)
    with g Some r show ?thesis by (simp add: db_exec_def)
  qed
qed

lemma alo_inv_user_act:
  assumes inv: "alo_inv u s"
  shows "alo_inv u (user_act s e)"
proof (cases "user_event e")
  case False
  with inv show ?thesis by (simp add: user_act_def)
next
  case True
  let ?v = "fst (manager_step (view s) e)"
  from True have nr: "\<forall>ev. e \<noteq> Realtime ev" and ns: "\<forall>i r. e \<noteq> Settle i r"
    by (simp_all add: user_event_not_machine)
  have bm: "bookmarks ?v = bookmarks (view s)" using nr by (rule step_keeps_bookmarks)
  have len: "length (in_flight (view s)) \<le> length (in_flight ?v)"
    using nr ns by (rule user_step_in_flight_grows)
  have ch: "channel ?v \<in> {None, Some (userId (view s)), channel (view s)}" by (rule step_channel)
  from inv bm len ch True show ?thesis
    by (auto simp: user_act_def alo_inv_def index_consistent_def Let_def)
qed

lemma alo_inv_reply:
  assumes inv: "alo_inv u s"
  shows "alo_inv u (reply s i)"
proof (cases "i < length (answers s)")
  case False
  with inv show ?thesis by (simp add: reply_def)
next
  case True
  show ?thesis
  proof (cases "answers s ! i")
    case None
    with True inv show ?thesis by (simp add: reply_def)
  next
    case (Some r)
    let ?v = "fst (manager_step (view s) (Settle i r))"
    have i: "i < length (in_flight (view s))" using True inv by (simp add: alo_inv_def)
    have fl: "in_flight ?v = remove_at i (in_flight (view s))" using i by (simp add: settle_in_flight)
    have fr: "bookmarks ?v = bookmarks (view s) \<and> channel ?v = channel (view s) \<and> userId ?v = userId (view s)"
      using settle_frame by simp
    from inv True Some fl fr i show ?thesis by (simp add: reply_def alo_inv_def index_consistent_def)
  qed
qed

lemma alo_inv_deliver: "alo_inv u s \<Longrightarrow> alo_inv u (deliver s)"
  by (auto simp: deliver_def alo_inv_def index_consistent_def on_realtime_def split: list.splits option.splits)

lemma alo_inv_reload: "alo_inv u s \<Longrightarrow> alo_inv u (reload s ok)"
  by (simp add: alo_inv_def reload_def init_manager_def index_consistent_def snapshot_query_wf)

lemma alo_inv_redeliver: "alo_inv u s \<Longrightarrow> alo_inv u (redeliver s)"
proof (cases "inbox s")
  case (Cons ev rest)
  assume inv: "alo_inv u s"
  have "bookmark_index (apply_changes (bookmarks (view s)) (ev # ev # rest))
          = bookmark_index (apply_changes (bookmarks (view s)) (ev # rest))"
    using index_apply_cong [OF index_on_change_twice [of "bookmarks (view s)" ev], of rest] by simp
  with inv Cons show ?thesis by (simp add: redeliver_def alo_inv_def index_consistent_def)
qed (simp add: redeliver_def)

lemma alo_step_inv: "alo_inv u s \<Longrightarrow> alo_inv u (alo_step s e)"
proof (cases e)
  case (Exactly e')
  assume inv: "alo_inv u s"
  show ?thesis
  proof (cases e')
    case (ExtInsert row)
    with inv Exactly show ?thesis by (simp add: alo_inv_insert)
  next
    case (ExtDelete uid k)
    with inv Exactly show ?thesis by (simp add: alo_inv_delete)
  next
    case (UserAct x)
    with inv Exactly show ?thesis by (simp add: alo_inv_user_act)
  next
    case (DbExec i rid now err)
    with inv Exactly show ?thesis by (simp add: alo_inv_db_exec)
  next
    case (Reply i)
    with inv Exactly show ?thesis by (simp add: alo_inv_reply)
  next
    case Deliver
    with inv Exactly show ?thesis by (simp add: alo_inv_deliver)
  next
    case (Reload ok)
    with inv Exactly show ?thesis by (simp add: alo_inv_reload)
  next
    case Join
    with inv Exactly show ?thesis by (simp add: alo_inv_def index_consistent_def)
  next
    case Drop
    with inv Exactly show ?thesis by (simp add: alo_inv_def index_consistent_def)
  qed
next
  case Redeliver
  then show "alo_inv u s \<Longrightarrow> ?thesis" by (simp add: alo_inv_redeliver)
qed

lemma alo_reach_inv: "alo_reach u s \<Longrightarrow> alo_inv u s"
proof (induction rule: alo_reach.induct)
  case (init tbl ok)
  then show ?case by (simp add: alo_inv_def sys_init_def init_manager_def index_consistent_def snapshot_query_wf)
next
  case (step s e)
  from step.IH show ?case by (rule alo_step_inv)
qed

lemma alo_reach_run: "alo_reach u s \<Longrightarrow> alo_reach u (alo_run s es)"
  by (induction es arbitrary: s) (auto simp: alo_run_def intro: alo_reach.step)

text \<open>Under redelivery the dictionary the component denotes still tracks the table.\<close>

lemma alo_index_consistent:
  "alo_reach u s \<Longrightarrow> \<not> missed s \<Longrightarrow>
   bookmark_index (apply_changes (bookmarks (view s)) (inbox s)) = bookmark_index (rls_select (auth_id u) (table s))"
  by (drule alo_reach_inv) (simp add: alo_inv_def index_consistent_def)

lemma alo_sample_facts:
  "let s = alo_run (sys_init sample_user [google] True) alo_run_sample
   in \<not> missed s \<and> inbox s = [] \<and> bookmarks (view s) = [bing, bing, google] \<and> filter_field (view s) = []
      \<and> table s = [bing, google]"
  unfolding alo_run_def alo_run_sample_def sys_init_def snapshot_query_def sample_user_def google_def bing_def by code_simp

text \<open>
  C2. The insert branch does not deduplicate, and at-least-once delivery makes
  it show: there is a reachable state, with nothing missed and nothing queued,
  in which the dictionary the component denotes is the user's rows of the table
  (the specification's view is intact) while the array holds a row twice, so the
  list differs from the table and the rendered list breaks React's key rule.
\<close>

theorem redelivery_duplicates_row:
  "\<exists>s. alo_reach sample_user s \<and> \<not> missed s \<and> inbox s = []
       \<and> bookmark_index (bookmarks (view s)) = bookmark_index (rls_select (auth_id sample_user) (table s))
       \<and> \<not> distinct (map bm_id (bookmarks (view s)))
       \<and> bookmarks (view s) \<noteq> rls_select (auth_id sample_user) (table s)
       \<and> \<not> keys_ok (manager_view (view s))"
proof -
  let ?s = "alo_run (sys_init sample_user [google] True) alo_run_sample"
  have r: "alo_reach sample_user ?s"
    by (rule alo_reach_run [OF alo_reach.init]) (simp add: table_wf_def)
  have f: "\<not> missed ?s" "inbox ?s = []" "bookmarks (view ?s) = [bing, bing, google]"
    "filter_field (view ?s) = []" "table ?s = [bing, google]"
    using alo_sample_facts by (simp_all add: Let_def)
  have idx: "bookmark_index (bookmarks (view ?s)) = bookmark_index (rls_select (auth_id sample_user) (table ?s))"
    using alo_index_consistent [OF r f(1)] f(2) by simp
  have nd: "\<not> distinct (map bm_id (bookmarks (view ?s)))" using f(3) by simp
  have ne: "bookmarks (view ?s) \<noteq> rls_select (auth_id sample_user) (table ?s)"
    using f(3,5) by (simp add: rls_select_def bing_def google_def sample_user_def)
  have "\<not> keys_ok (manager_view (view ?s))"
    using nd f(3,4)
    by (simp add: visible_bookmarks_def keys_ok_def manager_view_def sibling_keys_def list_all_iff bookmark_card_def)
  with r f(1,2) idx nd ne show ?thesis by blast
qed

end
