(* ===== verification/Spec2Isabelle.thy ===== *)
theory Spec2Isabelle
  imports Tabs Redelivery
begin

text \<open>
  \<^bold>\<open>A verification development of BookMarkManager.\<close>

  The repository is a Next.js application over Supabase.  Its one stateful
  component is the client component \<open>BookmarkManager\<close>
  (\<open>src/app/dashboard/bookmark-manager.tsx\<close>).  It holds the user's bookmarks
  in a React state array seeded with a snapshot that the server component
  \<open>DashboardPage\<close> (\<open>src/app/dashboard/page.tsx\<close>) reads.  It merges the
  \<open>postgres_changes\<close> events of a Supabase realtime channel into the array,
  sends inserts and deletes to the database, and shows the rows that match a
  search term.  Three server pages route the user by session: \<open>Home\<close>
  (\<open>src/app/page.tsx\<close>), \<open>LoginPage\<close> (\<open>src/app/login/page.tsx\<close>) and
  \<open>DashboardPage\<close>.  The database, the authentication service and the
  realtime transport are Supabase's and are not in the repository.  The
  component's requests reach the database, the database's commits come back
  through the channel, and the array is supposed to track the user's rows of
  the table.

  \<^bold>\<open>Theories and what they model.\<close>
  \<^descr>[\<open>Prelude\<close>] The model's type names, the fact collections \<open>handler_simps\<close>
    and \<open>keyed_simps\<close>, lists indexed by a key (\<open>index_by\<close>, \<open>drop_key\<close>),
    which relate an array of rows to the dictionary the specification speaks of,
    and \<open>remove_at\<close> (a settled promise leaving the queue).
  \<^descr>[\<open>Text\<close>] \<open>toLowerCase\<close> and \<open>includes\<close> as the search calls them
    (\<open>js_to_lower\<close>, \<open>js_includes\<close>), with the lemmas the search's
    properties use (\<open>includes\<close> is substring containment, lower case is
    idempotent).
  \<^descr>[\<open>Bookmark\<close>] The \<open>Bookmark\<close> type (record \<open>bookmark\<close>, with \<open>id\<close>
    renamed \<open>bm_id\<close>), the payload (\<open>change_event\<close>), the realtime callback
    (\<open>on_postgres_change\<close>, lines 42--48), queued functional updates
    (\<open>apply_changes\<close>), \<open>filteredBookmarks\<close> (\<open>filtered_bookmarks\<close>, lines
    90--94), and the specification's merge protocol (\<open>merge_spec\<close>).
    C1: the callback refines the protocol on the user's own events.  C3 and C9:
    it keeps the array well formed and newest first under the store's
    guarantees.  C4: deletes are idempotent.  C6: events on distinct ids
    commute.  C7: against the specification, it does not drop another owner's
    row (and, C2 below, does not deduplicate a repeated insert).  C8: the
    search is case-insensitive substring matching on title or url.
  \<^descr>[\<open>Manager\<close>] The component as a deterministic machine
    (\<open>manager_step\<close>; \<open>manager_run\<close> feeds it a sequence of inputs).  Its
    state \<open>manager_state\<close> holds the props, the five hooks, the open channel
    and the handler calls suspended at an \<open>await\<close> (\<open>in_flight\<close>).  Its
    inputs are mount and unmount (the effect of lines 30--55), keystrokes, form
    submits (\<open>submit_form\<close>: the \<open>disabled={loading}\<close> and \<open>required\<close>
    guards of lines 99--129), delete clicks on rendered rows, realtime payloads,
    and database answers resuming \<open>handleAdd\<close> (\<open>handle_add\<close>,
    \<open>handle_add_settled\<close>, lines 57--77) or \<open>handleDelete\<close>
    (\<open>handle_delete\<close>, \<open>handle_delete_settled\<close>, lines 79--88).  Its
    outputs are the calls it makes (\<open>effect\<close>).  C11: in every reachable state
    at most one insert is in flight, exactly while \<open>loading\<close> holds, and each
    carries the user's id.  C12, C13, C14, C16: the success, failure and
    validation paths of both handlers.  C15: only realtime payloads change the
    array.  C17 and C18: the channel is opened and removed alternately and
    events stop after teardown.  C19: a success clears text typed during the
    request.  C28: the search term never changes what is sent to Supabase, the
    list, or the suspended calls.
  \<^descr>[\<open>Routing\<close>] The three pages (\<open>home_page\<close>, \<open>login_page\<close>,
    \<open>dashboard_page\<close>), the snapshot's \<open>bookmarks || []\<close>
    (\<open>initial_bookmarks\<close>), the sign-out action, the paths \<open>redirect\<close> and
    \<open>Link\<close> name (\<open>route_path\<close>, and the router's \<open>parse_route\<close>), the
    router's choice of page (\<open>serve\<close>), and following redirects with fuel
    (\<open>navigate\<close>).  C20: the component is mounted only for a signed-in user,
    with that user's id.  C21: two page loads are always enough, so no redirect
    loops.  C22: the snapshot is newest first and holds exactly the rows read.
  \<^descr>[\<open>Store\<close>] Supabase, modelled from the specification's interface section
    because its code is not in the repository.  The table is kept newest first
    with store-assigned fresh ids and later timestamps (\<open>fresh_row\<close>).
    Row-level security scopes select and delete (\<open>rls_select\<close>,
    \<open>db_delete\<close>).  Realtime publication goes through the code's channel
    filter \<open>user_id=eq.userId\<close> (\<open>channel_accepts\<close>); deletes are
    unfiltered.
  \<^descr>[\<open>Sync\<close>] One user's running session (\<open>system\<close>): table, component,
    queued changes and pending answers.  The session starts from the
    dashboard's snapshot query (\<open>snapshot_query\<close>, \<open>sys_init\<close>), which may
    fail.  One step (\<open>sys_step\<close>) is one of these: a user action (an unmount
    drops the channel's queue), a database execution of a request, an answer, a
    delivery, another session's change, a reload of the page (\<open>reload\<close>: a new
    snapshot query and a new component), or the realtime server joining the
    channel or losing the connection (\<open>Join\<close>, \<open>Drop\<close>; the server
    publishes only to a joined channel, \<open>listening\<close>).  \<open>missed\<close> records
    the ways the component loses track of the table: a failed snapshot of a
    user with rows, a change committed while the server was not publishing, a
    queue dropped at unmount.  Reachability (\<open>sys_reach\<close>) is an inductive
    predicate, proved by rule induction to keep \<open>sys_inv\<close>.  C23: while
    nothing was missed, the array with the queued changes applied is exactly
    the user's rows of the table.  C24: delivering the queue converges.  C25: a
    row committed between the snapshot and the channel's opening is lost; a
    reload whose query succeeds brings the list back.  C26: so is a row
    committed while the connection is down, without the component's state
    showing anything.  C32: a failed snapshot query shows an empty list with no
    alert.  C10: delivering a change commutes with answers, keystrokes and
    submits, so their races are harmless.
  \<^descr>[\<open>Tabs\<close>] Several tabs of one user sharing the table
    (\<open>tabs_state\<close>, \<open>tabs_step\<close>, \<open>tabs_reach\<close>): each tab is a session
    of \<open>Sync\<close>, and what one tab commits reaches the others as a change by
    another session (\<open>remote_events\<close>).  By rule induction every tab of a
    reachable state is a reachable session (\<open>tabs_reach_inv\<close>), so the
    results of \<open>Sync\<close> hold in each tab.  For example, a tab that missed
    nothing shows the user's rows of the shared table once its queue is
    delivered (\<open>tab_delivered\<close>).
  \<^descr>[\<open>Redelivery\<close>] The system over an at-least-once transport, which
    may hand the component a queued change again (\<open>redeliver\<close>,
    \<open>alo_step\<close>, \<open>alo_reach\<close>).  An invariant proved by rule induction keeps
    the dictionary the component denotes equal to the user's rows of the table
    (the specification's merge is robust).  C2: yet a reachable state shows a
    row twice, so the array differs from the table and the rendered list breaks
    React's key rule.
  \<^descr>[\<open>Render\<close>] The markup each component returns, as a tree
    (\<open>node\<close>): \<open>landing_view\<close> and \<open>feature_card\<close>
    (\<open>src/app/page.tsx\<close>), \<open>login_view\<close>, \<open>dashboard_view\<close>, and the
    component's render \<open>manager_view\<close> with \<open>bookmark_card\<close> and
    \<open>empty_state\<close> (lines 90--197).  \<open>collect\<close> reads handlers, inputs,
    links, mounted components and list keys off a tree.  C29: the list's keys
    are distinct exactly when the shown ids are.  C30: the inputs are
    controlled (type, then read back).  C31: every page the browser ends on
    links only to routes and mounts the component exactly for a signed-in
    user, listing the whole snapshot.
  \<^descr>[\<open>Spec2Isabelle\<close>] This header, C5 and C27.  C5: what the user
    sees, in a reachable state where nothing was missed or is queued, is the
    store's rows for the user, searched.  The rendered rows and their delete
    buttons are the filtered rows of the table.  C27: a run across all
    components.  Opening the channel, filling in and submitting the form, the
    database's insert, its answer and the delivery put the new row at the head
    of the list and of the table, with the form cleared and nothing left
    pending.

  \<^bold>\<open>Bounds and fuel.\<close>  The only loop is the browser following redirects.
  \<open>navigate\<close> takes fuel, and C21 shows that two units always reach a page,
  because each page redirects at most once and never to a redirecting page for
  the same session.  The other recursions are structural.  The program has no
  machine integers.

  \<^bold>\<open>Modelling choices and assumptions.\<close>
  \<^item> A HOL \<open>char\<close> is read as a UTF-16 code unit of U+0000--U+00FF, on
    which \<open>toLowerCase\<close> is modelled exactly (\<open>Text.latin1_upper\<close>).
    Text beyond U+00FF is not representable.  So the model does not cover
    characters whose lower case has another length, such as U+0130.
  \<^item> Timestamps are strings compared lexicographically, as ISO-8601
    timestamps of one time zone order.
  \<^item> The store gives a new row a fresh id and a timestamp later than every
    row of the table (\<open>Store.fresh_row\<close>); an insert the store would not
    make leaves the state unchanged.  This is an assumption.  Postgres's
    \<open>now()\<close> is the transaction's start, so concurrent inserts can commit
    out of timestamp order.  The newest-first results (C9, C22) and the
    consistency of a snapshot with the table (C23 and what rests on it) hold
    under it.
  \<^item> The snapshot query either returns the user's rows or fails
    (\<open>Sync.snapshot_query\<close>).  On failure the page passes \<open>[]\<close> and the
    session starts with \<open>missed\<close> set when the user has rows (C32).
  \<^item> Removing a channel drops the changes queued for it; when there were
    any, the session's \<open>missed\<close> is set (\<open>Sync.user_act\<close>).
  \<^item> The browser's \<open>type="url"\<close> syntax check is not modelled, so the
    model submits more forms than a browser would.
  \<^item> The realtime transport delivers in order and exactly once what it
    publishes (\<open>Redelivery\<close> drops "exactly once").  It publishes only to
    a channel the server has joined and replays nothing.
  \<^item> The component's alerts are outputs; \<open>console.error\<close> is not
    modelled.
  \<^item> A redirect to a path of no page ends \<open>navigate\<close> with \<open>None\<close>
    where Next.js would render its not-found page; C21 and C31 show the app
    never does so.

  \<^bold>\<open>Not modelled.\<close>  Styling: \<open>className\<close>, icon sizes and the
  choice of icon beyond its name.  \<open>AuthButton\<close> and the OAuth flow, which
  are not in the repository.  Supabase itself (the authentication protocol,
  the storage engine, the realtime server) is a service the code only calls.
  It is modelled at the interface the specification gives (\<open>Store\<close>, the
  join state of \<open>Sync\<close>), not as code, and the database's row-level security
  policies are assumed as that interface says.  Whether \<open>createClient\<close>
  returns a cached client is not modelled; the effect's dependency on it is
  recorded as a finding.  The import lines of the four files are not
  modelled.  Supabase's behaviour beyond its specified interface is not
  modelled either, for instance whether a signed-out tab's requests still
  carry a valid token.
\<close>

section \<open>A run across the components\<close>

definition bing_added :: bookmark where
  "bing_added = \<lparr>bm_id = ''2'', created_at = ''2024-01-02T09:00:00'', user_id = ''u1'',
                 url = ''https://bing.com'', title = ''Bing''\<rparr>"

text \<open>
  C27. From any table, opening the channel and the server joining it, filling in
  and submitting the form, a successful insert by the database, its answer and
  the delivery of its change leave the new row at the head of the list and of
  the table, the form cleared, \<open>loading\<close> off, and nothing queued, pending or
  missed.
\<close>

theorem end_to_end_add:
  assumes "t \<noteq> []" and "l \<noteq> []"
    and "fresh_row tbl \<lparr>bm_id = rid, created_at = now, user_id = auth_id u, url = l, title = t\<rparr>"
  shows "let s = sys_run (sys_init u tbl True)
            [UserAct Mount, Join, UserAct (TitleChange t), UserAct (UrlChange l), UserAct SubmitForm,
             DbExec 0 rid now None, Reply 0, Deliver]
         in bookmarks (view s) = \<lparr>bm_id = rid, created_at = now, user_id = auth_id u, url = l, title = t\<rparr>
                                   # initial_bookmarks (Some (rls_select (auth_id u) tbl))
            \<and> table s = \<lparr>bm_id = rid, created_at = now, user_id = auth_id u, url = l, title = t\<rparr> # tbl
            \<and> title_field (view s) = [] \<and> url_field (view s) = [] \<and> \<not> loading (view s)
            \<and> inbox s = [] \<and> answers s = [] \<and> \<not> missed s"
  using assms
  by (simp add: sys_init_def snapshot_query_def init_manager_def user_act_def effect_setup_def submit_form_def handle_add_def
      db_exec_def table_change_def publish_def db_insert_def reply_def settle_def remove_at_def
      handle_add_settled_def deliver_def on_realtime_def listening_def Let_def)

theorem end_to_end_add_witness:
  "let s = sys_run (sys_init sample_user [google] True)
            [UserAct Mount, Join, UserAct (TitleChange ''Bing''), UserAct (UrlChange ''https://bing.com''),
             UserAct SubmitForm, DbExec 0 ''2'' ''2024-01-02T09:00:00'' None, Reply 0, Deliver]
   in bookmarks (view s) = bing_added # initial_bookmarks (Some (rls_select ''u1'' [google]))
      \<and> table s = [bing_added, google]
      \<and> title_field (view s) = [] \<and> url_field (view s) = [] \<and> \<not> loading (view s)
      \<and> inbox s = [] \<and> answers s = [] \<and> \<not> missed s"
proof -
  have h1: "''Bing'' \<noteq> []" and h2: "''https://bing.com'' \<noteq> []" by simp_all
  have h3: "fresh_row [google] \<lparr>bm_id = ''2'', created_at = ''2024-01-02T09:00:00'',
      user_id = auth_id sample_user, url = ''https://bing.com'', title = ''Bing''\<rparr>"
    unfolding fresh_row_def google_def sample_user_def by code_simp
  show ?thesis
    using end_to_end_add [OF h1 h2 h3] by (simp add: bing_added_def sample_user_def)
qed

text \<open>
  C5. What the user sees is the store, searched: in every reachable state in
  which no change went unobserved and nothing is queued, the rows the component
  renders (each with its delete button, in order) are exactly the user's rows of
  the table that match the search term, and the rendered list satisfies React's
  key rule.
\<close>

theorem rendered_list_is_store_view:
  assumes "sys_reach u s" and "\<not> missed s" and "inbox s = []"
  shows "clicks (manager_view (view s))
           = map (\<lambda>b. ClickDelete (bm_id b)) (filtered_bookmarks (rls_select (auth_id u) (table s)) (filter_field (view s)))
         \<and> keys_ok (manager_view (view s))"
proof -
  from reach_consistent [OF assms(1,2)] assms(3)
  have eq: "bookmarks (view s) = rls_select (auth_id u) (table s)" by simp
  from reach_table_wf [OF assms(1)] have "distinct (map bm_id (filtered_bookmarks (rls_select (auth_id u) (table s)) (filter_field (view s))))"
    by (simp add: table_wf_def filtered_bookmarks_def distinct_map_filter)
  with eq have "keys_ok (manager_view (view s))"
    by (simp add: visible_bookmarks_def keys_ok_def manager_view_def sibling_keys_def list_all_iff)
  with eq show ?thesis by (simp add: manager_view_clicks visible_bookmarks_def)
qed

theorem rendered_list_is_store_view_witness:
  "clicks (manager_view (view (sys_run add_state [Deliver]))) = [ClickDelete ''2'', ClickDelete ''1'']
   \<and> keys_ok (manager_view (view (sys_run add_state [Deliver])))"
proof -
  have r: "sys_reach sample_user (sys_run add_state [Deliver])" by (rule sys_reach_run [OF add_state_reach])
  have h2: "\<not> missed (sys_run add_state [Deliver])" and h3: "inbox (sys_run add_state [Deliver]) = []"
    using add_state_facts by simp_all
  have v: "filter_field (view (sys_run add_state [Deliver])) = []"
    and t: "rls_select ''u1'' (table (sys_run add_state [Deliver])) = [bing, google]"
    unfolding add_state_def add_run_def sys_init_def snapshot_query_def sample_user_def google_def bing_def rls_select_def by code_simp+
  show ?thesis
    using rendered_list_is_store_view [OF r h2 h3] v t by (simp add: auth_id_sample_user bing_def google_def)
qed

end
